theory Spec2Isabelle
  imports Complex_Main "HOL-Library.AList"
begin

section \<open>SignalBoard analytics: a shallow embedding\<close>

text \<open>
  The analytics layer of SignalBoard (the PM-metrics integration module and the
  forecasting part of the analytics engine in \<^verbatim>\<open>chatbot.js\<close>) is embedded function by
  function.  Conventions of the embedding:

  \<^item> JavaScript numbers are exact rationals (\<^typ>\<open>rat\<close>); counters that the code only
    ever increments from 0 are \<^typ>\<open>nat\<close>.  Rounding and overflow of IEEE doubles
    are outside the model.  Where the code can produce \<^verbatim>\<open>NaN\<close> from the data it
    is given (reading \<^verbatim>\<open>y[i]\<close> beyond the end of an array), the value is a
    \<^typ>\<open>rat option\<close> and \<^term>\<open>None\<close> is \<^verbatim>\<open>NaN\<close>.
  \<^item> An instant is the number of milliseconds since the epoch of the local,
    fixed-offset clock.  A \<^verbatim>\<open>Date\<close> is its instant.
  \<^item> The string \<^verbatim>\<open>YYYY-MM-DD\<close> returned by \<^verbatim>\<open>dayKey\<close> names a calendar day and
    different days have different strings; the model uses the number of the
    calendar day instead of the string.
  \<^item> A \<^verbatim>\<open>Map\<close> is an association list in insertion order, \<^verbatim>\<open>Map.set\<close> is
    \<^const>\<open>AList.update\<close> (a new key goes to the end, an old key keeps its place);
    a \<^verbatim>\<open>Set\<close> is a duplicate-free list in insertion order.
  \<^item> The module constant \<^verbatim>\<open>CONFIG\<close> is passed to each analyzer as a parameter;
    the constant with the values of the source is \<open>CONFIG\<close> below.
  \<^item> Strings built only for display (messages, percentages, step titles,
    localised dates) are not part of the model.
\<close>

subsection \<open>Configuration\<close>

record anomalyThresholds =
  signalVolumeDelta :: rat
  impactScoreDelta :: rat
  sentimentDelta :: rat
  criticalSignalRatio :: rat

record analysisWindows =
  short :: int
  medium :: int
  long :: int

record config =
  retentionDays :: "int list"
  funnelSteps :: "string list"
  anomalyThresholds :: anomalyThresholds
  maxStoredEvents :: nat
  maxDisplayedEvents :: nat
  analysisWindows :: analysisWindows

definition CONFIG :: config where
  "CONFIG = \<lparr>
     retentionDays = [1, 3, 7, 14, 30],
     funnelSteps = [''app_open'', ''view_capture'', ''signal_captured'',
                    ''view_insights'', ''benchmark_created''],
     anomalyThresholds = \<lparr>
       signalVolumeDelta = 30 / 100,
       impactScoreDelta = 25 / 100,
       sentimentDelta = 20 / 100,
       criticalSignalRatio = 15 / 100 \<rparr>,
     maxStoredEvents = 5000,
     maxDisplayedEvents = 100,
     analysisWindows = \<lparr> short = 7, medium = 14, long = 30 \<rparr> \<rparr>"

subsection \<open>Utility functions\<close>

type_synonym instant = int

definition msPerDay :: int where
  "msPerDay = 24 * 60 * 60 * 1000"

text \<open>\<^verbatim>\<open>safeNumber(value, fallback)\<close>: the argument is \<^term>\<open>None\<close> when
  \<^verbatim>\<open>Number(value)\<close> is not finite.\<close>

definition safeNumber :: "rat option \<Rightarrow> rat \<Rightarrow> rat" where
  "safeNumber v fallback = (case v of Some num \<Rightarrow> num | None \<Rightarrow> fallback)"

text \<open>\<^verbatim>\<open>dayKey(date)\<close>: the calendar day of an instant.\<close>

definition dayKey :: "instant \<Rightarrow> int" where
  "dayKey d = d div msPerDay"

text \<open>\<^verbatim>\<open>d.setDate(d.getDate() + k)\<close>: the same time of day, \<open>k\<close> calendar days later.\<close>

definition addDays :: "instant \<Rightarrow> int \<Rightarrow> instant" where
  "addDays d k = d + k * msPerDay"

text \<open>\<^verbatim>\<open>Math.round\<close> rounds to the nearest integer, a half towards \<open>+\<infinity>\<close>.\<close>

definition js_round :: "rat \<Rightarrow> int" where
  "js_round v = \<lfloor>v + 1 / 2\<rfloor>"

definition average :: "rat list \<Rightarrow> rat" where
  "average array =
     (if array = [] then 0
      else fold (\<lambda>val sum. sum + val) array 0 / of_nat (length array))"

text \<open>\<^verbatim>\<open>a || b\<close> on an optional string: a missing field and the empty string are falsy.\<close>

definition orElse :: "string option \<Rightarrow> string \<Rightarrow> string" where
  "orElse v d = (case v of None \<Rightarrow> d | Some s \<Rightarrow> if s = [] then d else s)"

text \<open>\<^verbatim>\<open>toLowerCase()\<close> on the ASCII letters; the strings of the model are byte
  strings.\<close>

definition lower_char :: "char \<Rightarrow> char" where
  "lower_char c =
     (let n = (of_char c :: nat)
      in if 65 \<le> n \<and> n \<le> 90 then char_of (n + 32) else c)"

definition toLowerCase :: "string \<Rightarrow> string" where
  "toLowerCase s = map lower_char s"

text \<open>\<^verbatim>\<open>array.slice(start, stop)\<close>; \<^term>\<open>None\<close> is an omitted \<open>stop\<close>.\<close>

definition js_slice :: "'a list \<Rightarrow> int \<Rightarrow> int option \<Rightarrow> 'a list" where
  "js_slice xs start stop =
     (let len = int (length xs);
          k = (if start < 0 then max (len + start) 0 else min start len);
          final = (case stop of
                     None \<Rightarrow> len
                   | Some e \<Rightarrow> if e < 0 then max (len + e) 0 else min e len)
      in take (nat (final - k)) (drop (nat k) xs))"

text \<open>\<^verbatim>\<open>new Set(array)\<close> and \<^verbatim>\<open>set.add(v)\<close>.\<close>

definition set_add :: "'a \<Rightarrow> 'a list \<Rightarrow> 'a list" where
  "set_add v s = (if v \<in> set s then s else s @ [v])"

definition new_Set :: "'a list \<Rightarrow> 'a list" where
  "new_Set array = fold set_add array []"

subsection \<open>Signals and daily buckets\<close>

text \<open>
  The fields of a signal that the analyzers read.  An optional field is
  \<^term>\<open>None\<close> when it is absent or falsy; \<open>impact\<close> is \<^term>\<open>None\<close> when it is not
  a finite number.  Urgency, category and tier are strings, as the data model
  has them.
\<close>

record signal =
  impact :: "rat option"
  urgency :: "string option"
  sentiment :: "string option"
  category :: "string option"
  tier :: "string option"
  timestamp :: "instant option"

record categories =
  bug :: nat
  feature :: nat
  performance :: nat
  ux :: nat
  documentation :: nat

record tiers =
  enterprise :: nat
  pro :: nat
  free :: nat

record dailyBucket =
  date :: int
  signalCount :: nat
  totalImpact :: rat
  avgImpact :: int
  criticalCount :: nat
  highCount :: nat
  mediumCount :: nat
  lowCount :: nat
  negativeCount :: nat
  categories :: categories
  tiers :: tiers

definition emptyBucket :: "int \<Rightarrow> dailyBucket" where
  "emptyBucket k = \<lparr>
     date = k, signalCount = 0, totalImpact = 0, avgImpact = 0,
     criticalCount = 0, highCount = 0, mediumCount = 0, lowCount = 0,
     negativeCount = 0,
     categories = \<lparr> bug = 0, feature = 0, performance = 0, ux = 0, documentation = 0 \<rparr>,
     tiers = \<lparr> enterprise = 0, pro = 0, free = 0 \<rparr> \<rparr>"

subsection \<open>Daily time series\<close>

text \<open>The initialisation loop \<^verbatim>\<open>for (let i = days - 1; i >= 0; i--)\<close>: the counter
  \<open>Suc i\<close> says that the iterations for \<open>i\<close> down to 0 remain, and the one for \<open>i\<close>
  runs first.\<close>

fun initDays :: "instant \<Rightarrow> nat \<Rightarrow> (int \<times> dailyBucket) list \<Rightarrow> (int \<times> dailyBucket) list" where
  "initDays today 0 m = m"
| "initDays today (Suc i) m =
     initDays today i
       (AList.update (dayKey (addDays today (- int i)))
          (emptyBucket (dayKey (addDays today (- int i)))) m)"

text \<open>\<^verbatim>\<open>day.categories[category]++\<close>, guarded by \<^verbatim>\<open>!== undefined\<close>: the five own
  keys of the object are the counters.  A category or tier that is the name of
  a property which every object inherits (\<^verbatim>\<open>constructor\<close>, for one) is no value
  of the data model and is not modelled.\<close>

definition countCategory :: "string \<Rightarrow> categories \<Rightarrow> categories" where
  "countCategory c cs =
     (if c = ''bug'' then cs\<lparr>bug := bug cs + 1\<rparr>
      else if c = ''feature'' then cs\<lparr>feature := feature cs + 1\<rparr>
      else if c = ''performance'' then cs\<lparr>performance := performance cs + 1\<rparr>
      else if c = ''ux'' then cs\<lparr>ux := ux cs + 1\<rparr>
      else if c = ''documentation'' then cs\<lparr>documentation := documentation cs + 1\<rparr>
      else cs)"

definition countTier :: "string \<Rightarrow> tiers \<Rightarrow> tiers" where
  "countTier t ts =
     (if t = ''enterprise'' then ts\<lparr>enterprise := enterprise ts + 1\<rparr>
      else if t = ''pro'' then ts\<lparr>pro := pro ts + 1\<rparr>
      else if t = ''free'' then ts\<lparr>free := free ts + 1\<rparr>
      else ts)"

text \<open>The day key of a signal: \<^verbatim>\<open>dayKey(signal.timestamp || new Date())\<close>.\<close>

definition signalKey :: "instant \<Rightarrow> signal \<Rightarrow> int" where
  "signalKey now s = dayKey (case timestamp s of None \<Rightarrow> now | Some t \<Rightarrow> t)"

text \<open>What the body of \<^verbatim>\<open>signals.forEach\<close> does to the bucket of the signal's day.\<close>

definition countSignal :: "signal \<Rightarrow> dailyBucket \<Rightarrow> dailyBucket" where
  "countSignal s day =
     (let day1 = day\<lparr>signalCount := signalCount day + 1,
                    totalImpact := totalImpact day + safeNumber (impact s) 0\<rparr>;
          u = toLowerCase (orElse (urgency s) ''low'');
          day2 = (if u = ''critical'' then day1\<lparr>criticalCount := criticalCount day1 + 1\<rparr>
                  else if u = ''high'' then day1\<lparr>highCount := highCount day1 + 1\<rparr>
                  else if u = ''medium'' then day1\<lparr>mediumCount := mediumCount day1 + 1\<rparr>
                  else day1\<lparr>lowCount := lowCount day1 + 1\<rparr>);
          day3 = (if sentiment s = Some ''negative''
                  then day2\<lparr>negativeCount := negativeCount day2 + 1\<rparr> else day2);
          day4 = day3\<lparr>categories :=
                   countCategory (toLowerCase (orElse (category s) ''other'')) (categories day3)\<rparr>
      in day4\<lparr>tiers := countTier (toLowerCase (orElse (tier s) ''free'')) (tiers day4)\<rparr>)"

text \<open>The body of \<^verbatim>\<open>signals.forEach\<close>: a signal whose key is not in the map is
  skipped by the early \<^verbatim>\<open>return\<close>.\<close>

definition addSignal :: "instant \<Rightarrow> signal \<Rightarrow> (int \<times> dailyBucket) list \<Rightarrow> (int \<times> dailyBucket) list" where
  "addSignal now s m =
     (let key = signalKey now s
      in case map_of m key of
           None \<Rightarrow> m
         | Some day \<Rightarrow> AList.update key (countSignal s day) m)"

definition withAverage :: "dailyBucket \<Rightarrow> dailyBucket" where
  "withAverage day =
     day\<lparr>avgImpact :=
           (if signalCount day > 0
            then js_round (totalImpact day / of_nat (signalCount day)) else 0)\<rparr>"

text \<open>\<^verbatim>\<open>computeDailyTimeSeries(signals, days)\<close>; \<open>now\<close> is the instant that
  \<^verbatim>\<open>new Date()\<close> returns during the call.\<close>

definition computeDailyTimeSeries :: "instant \<Rightarrow> signal list \<Rightarrow> nat \<Rightarrow> dailyBucket list" where
  "computeDailyTimeSeries now signals days =
     (let m0 = initDays now days [];
          m = fold (addSignal now) signals m0
      in map (\<lambda>(k, day). withAverage day) m)"

subsection \<open>Events\<close>

text \<open>An analytics event as \<^verbatim>\<open>trackEvent\<close> records it; the identifiers are strings
  and the timestamp is the instant of the ISO string.\<close>

record event =
  type :: string
  timestamp :: instant
  sessionId :: string
  userId :: string

subsection \<open>Funnel analysis\<close>

record funnelStep =
  step :: string
  users :: nat
  conversionRate :: rat
  dropoffCount :: int

record funnelResult =
  steps :: "funnelStep list"
  overallConversion :: rat
  totalUsers :: nat

text \<open>The first loop of \<^verbatim>\<open>computeFunnelAnalysis\<close>: the set of user ids per step.\<close>

definition usersByStep :: "string list \<Rightarrow> event list \<Rightarrow> (string \<times> string list) list" where
  "usersByStep stepNames events =
     fold (\<lambda>s m. AList.update s (new_Set (map userId (filter (\<lambda>e. type e = s) events))) m)
       stepNames []"

text \<open>\<^verbatim>\<open>users ? users.size : 0\<close> for \<^verbatim>\<open>users = usersByStep.get(step)\<close>.\<close>

definition stepSize :: "(string \<times> string list) list \<Rightarrow> string \<Rightarrow> nat" where
  "stepSize m s = (case map_of m s of Some us \<Rightarrow> length us | None \<Rightarrow> 0)"

text \<open>The callback of \<^verbatim>\<open>steps.map((step, index) => ...)\<close>.\<close>

definition funnelEntry :: "string list \<Rightarrow> (string \<times> string list) list \<Rightarrow> nat \<times> string \<Rightarrow> funnelStep" where
  "funnelEntry stepNames m p =
     (let index = fst p; s = snd p;
          count = stepSize m s;
          conversion =
            (if index > 0
             then (let previousCount = stepSize m (stepNames ! (index - 1))
                   in if previousCount > 0 then of_nat count / of_nat previousCount else 0)
             else 1)
      in \<lparr> step = s, users = count, conversionRate = conversion,
           dropoffCount =
             (if index > 0 then int (stepSize m (stepNames ! (index - 1))) - int count else 0) \<rparr>)"

definition computeFunnelAnalysis :: "config \<Rightarrow> event list \<Rightarrow> funnelResult" where
  "computeFunnelAnalysis cfg events =
     (let stepNames = funnelSteps cfg;
          m = usersByStep stepNames events;
          funnelData = map (funnelEntry stepNames m) (enumerate 0 stepNames);
          firstStepUsers = (case funnelData of [] \<Rightarrow> 0 | d # ds \<Rightarrow> users d);
          lastStepUsers = (if funnelData = [] then 0 else users (last funnelData));
          overall = (if firstStepUsers > 0
                     then of_nat lastStepUsers / of_nat firstStepUsers else 0)
      in \<lparr> steps = funnelData, overallConversion = overall, totalUsers = firstStepUsers \<rparr>)"

subsection \<open>Retention analysis\<close>

record retentionEntry =
  dayOffset :: int
  retained :: nat
  total :: nat
  rate :: rat

record retentionResult =
  totalUsers :: nat
  retention :: "(int \<times> retentionEntry) list"

text \<open>The two maps that the first loop of \<^verbatim>\<open>computeRetentionAnalysis\<close> fills.\<close>

record activity =
  userFirstSeen :: "(string \<times> instant) list"
  userActiveDays :: "(string \<times> int list) list"

text \<open>The body of \<^verbatim>\<open>events.forEach\<close>.\<close>

definition trackActivity :: "event \<Rightarrow> activity \<Rightarrow> activity" where
  "trackActivity ev a =
     (let uid = userId ev;
          eventDate = event.timestamp ev;
          day = dayKey eventDate;
          firstSeen =
            (case map_of (userFirstSeen a) uid of
               None \<Rightarrow> AList.update uid eventDate (userFirstSeen a)
             | Some existing \<Rightarrow>
                 if eventDate < existing
                 then AList.update uid eventDate (userFirstSeen a)
                 else userFirstSeen a);
          active =
            (case map_of (userActiveDays a) uid of
               None \<Rightarrow> AList.update uid [] (userActiveDays a)
             | Some ds \<Rightarrow> userActiveDays a);
          active' =
            (case map_of active uid of
               None \<Rightarrow> active
             | Some ds \<Rightarrow> AList.update uid (set_add day ds) active)
      in \<lparr> userFirstSeen = firstSeen, userActiveDays = active' \<rparr>)"

text \<open>The test in the body of \<^verbatim>\<open>userFirstSeen.forEach\<close>.\<close>

definition isRetained :: "(string \<times> int list) list \<Rightarrow> int \<Rightarrow> string \<times> instant \<Rightarrow> bool" where
  "isRetained active offset p =
     (let checkDay = dayKey (addDays (snd p) offset)
      in case map_of active (fst p) of
           None \<Rightarrow> False
         | Some activeDays \<Rightarrow> checkDay \<in> set activeDays)"

definition retainedCount :: "activity \<Rightarrow> int \<Rightarrow> nat" where
  "retainedCount a offset =
     fold (\<lambda>p c. if isRetained (userActiveDays a) offset p then c + 1 else c)
       (userFirstSeen a) 0"

text \<open>The entry stored under the key \<^verbatim>\<open>`day${dayOffset}`\<close>; the key of the model is
  the offset.\<close>

definition retentionFor :: "activity \<Rightarrow> int \<Rightarrow> retentionEntry" where
  "retentionFor a offset =
     (let n = length (userFirstSeen a); r = retainedCount a offset
      in \<lparr> dayOffset = offset, retained = r, total = n,
           rate = (if n > 0 then of_nat r / of_nat n else 0) \<rparr>)"

text \<open>The loop \<^verbatim>\<open>events.forEach\<close> from the two empty maps.\<close>

definition buildActivity :: "event list \<Rightarrow> activity" where
  "buildActivity events =
     fold trackActivity events \<lparr> userFirstSeen = [], userActiveDays = [] \<rparr>"

definition computeRetentionAnalysis :: "config \<Rightarrow> event list \<Rightarrow> retentionResult" where
  "computeRetentionAnalysis cfg events =
     (let a = buildActivity events
      in \<lparr> totalUsers = length (userFirstSeen a),
           retention =
             fold (\<lambda>offset r. AList.update offset (retentionFor a offset) r)
               (retentionDays cfg) [] \<rparr>)"

subsection \<open>Anomaly detection\<close>

datatype severity = Medium | High

text \<open>An anomaly object: its \<^verbatim>\<open>type\<close> tag is the constructor, followed by the
  fields \<^verbatim>\<open>severity\<close>, \<^verbatim>\<open>delta\<close> and then \<^verbatim>\<open>current\<close>/\<^verbatim>\<open>previous\<close>,
  \<^verbatim>\<open>current\<close>/\<^verbatim>\<open>total\<close> or \<^verbatim>\<open>category\<close>/\<^verbatim>\<open>count\<close>.\<close>

datatype anomaly =
  Signal_volume_anomaly severity rat int int
| Impact_score_anomaly severity rat int int
| Critical_signal_spike severity rat nat nat
| Category_concentration severity rat string nat

fun anomalyType :: "anomaly \<Rightarrow> string" where
  "anomalyType (Signal_volume_anomaly s d c p) = ''signal_volume_anomaly''"
| "anomalyType (Impact_score_anomaly s d c p) = ''impact_score_anomaly''"
| "anomalyType (Critical_signal_spike s d c t) = ''critical_signal_spike''"
| "anomalyType (Category_concentration s d c n) = ''category_concentration''"

text \<open>The relative change \<^verbatim>\<open>previous > 0 ? (recent - previous) / previous : 0\<close>.\<close>

definition relativeDelta :: "rat \<Rightarrow> rat \<Rightarrow> rat" where
  "relativeDelta recent previous =
     (if previous > 0 then (recent - previous) / previous else 0)"

definition volumeDelta :: "dailyBucket list \<Rightarrow> dailyBucket list \<Rightarrow> rat" where
  "volumeDelta recentData previousData =
     relativeDelta (average (map (\<lambda>d. of_nat (signalCount d)) recentData))
       (average (map (\<lambda>d. of_nat (signalCount d)) previousData))"

definition volumeCheck :: "config \<Rightarrow> dailyBucket list \<Rightarrow> dailyBucket list \<Rightarrow> anomaly list" where
  "volumeCheck cfg recentData previousData =
     (let recentVolume = average (map (\<lambda>d. of_nat (signalCount d)) recentData);
          previousVolume = average (map (\<lambda>d. of_nat (signalCount d)) previousData);
          delta = volumeDelta recentData previousData
      in if \<bar>delta\<bar> \<ge> signalVolumeDelta (anomalyThresholds cfg)
         then [Signal_volume_anomaly (if \<bar>delta\<bar> > 5 / 10 then High else Medium) delta
                 (js_round recentVolume) (js_round previousVolume)]
         else [])"

definition impactDelta :: "dailyBucket list \<Rightarrow> dailyBucket list \<Rightarrow> rat" where
  "impactDelta recentData previousData =
     relativeDelta (average (map (\<lambda>d. of_int (avgImpact d)) recentData))
       (average (map (\<lambda>d. of_int (avgImpact d)) previousData))"

definition impactCheck :: "config \<Rightarrow> dailyBucket list \<Rightarrow> dailyBucket list \<Rightarrow> anomaly list" where
  "impactCheck cfg recentData previousData =
     (let recentImpact = average (map (\<lambda>d. of_int (avgImpact d)) recentData);
          previousImpact = average (map (\<lambda>d. of_int (avgImpact d)) previousData);
          delta = impactDelta recentData previousData
      in if \<bar>delta\<bar> \<ge> impactScoreDelta (anomalyThresholds cfg)
         then [Impact_score_anomaly (if \<bar>delta\<bar> > 4 / 10 then High else Medium) delta
                 (js_round recentImpact) (js_round previousImpact)]
         else [])"

definition recentCritical :: "dailyBucket list \<Rightarrow> nat" where
  "recentCritical recentData = fold (\<lambda>d sum. sum + criticalCount d) recentData 0"

definition recentTotal :: "dailyBucket list \<Rightarrow> nat" where
  "recentTotal recentData = fold (\<lambda>d sum. sum + signalCount d) recentData 0"

definition criticalRatio :: "dailyBucket list \<Rightarrow> rat" where
  "criticalRatio recentData =
     (if recentTotal recentData > 0
      then of_nat (recentCritical recentData) / of_nat (recentTotal recentData) else 0)"

definition criticalCheck :: "config \<Rightarrow> dailyBucket list \<Rightarrow> anomaly list" where
  "criticalCheck cfg recentData =
     (if criticalRatio recentData \<ge> criticalSignalRatio (anomalyThresholds cfg)
      then [Critical_signal_spike High (criticalRatio recentData)
              (recentCritical recentData) (recentTotal recentData)]
      else [])"

text \<open>\<^verbatim>\<open>Object.keys(day.categories)\<close> with the values: the five keys in the order in
  which the bucket is built.\<close>

definition categoryEntries :: "categories \<Rightarrow> (string \<times> nat) list" where
  "categoryEntries cs =
     [(''bug'', bug cs), (''feature'', feature cs), (''performance'', performance cs),
      (''ux'', ux cs), (''documentation'', documentation cs)]"

text \<open>The reducer that sums the categories of the recent days:
  \<^verbatim>\<open>acc[cat] = (acc[cat] || 0) + day.categories[cat]\<close>.\<close>

definition categoryTotals :: "dailyBucket list \<Rightarrow> (string \<times> nat) list" where
  "categoryTotals recentData =
     fold (\<lambda>day acc.
            fold (\<lambda>(cat, n) acc'.
                   AList.update cat ((case map_of acc' cat of Some a \<Rightarrow> a | None \<Rightarrow> 0) + n) acc')
              (categoryEntries (categories day)) acc)
       recentData []"

text \<open>\<^verbatim>\<open>Object.entries(categoryTotals).sort(([, a], [, b]) => b - a)[0]\<close>: a stable
  sort by falling count, and then the first entry if there is one.\<close>

definition dominantCategory :: "dailyBucket list \<Rightarrow> (string \<times> nat) option" where
  "dominantCategory recentData =
     (case sort_key (\<lambda>(cat, n). - int n) (categoryTotals recentData) of
        [] \<Rightarrow> None
      | d # ds \<Rightarrow> Some d)"

text \<open>The concentration of the dominant category, where the code computes it.\<close>

definition concentration :: "dailyBucket list \<Rightarrow> rat option" where
  "concentration recentData =
     (case dominantCategory recentData of
        None \<Rightarrow> None
      | Some (cat, n) \<Rightarrow>
          if recentTotal recentData > 0
          then Some (of_nat n / of_nat (recentTotal recentData)) else None)"

definition categoryCheck :: "dailyBucket list \<Rightarrow> anomaly list" where
  "categoryCheck recentData =
     (case dominantCategory recentData of
        None \<Rightarrow> []
      | Some (cat, n) \<Rightarrow>
          if recentTotal recentData > 0
          then (let c = of_nat n / of_nat (recentTotal recentData)
                in if c > 5 / 10 then [Category_concentration Medium c cat n] else [])
          else [])"

definition recentWindow :: "config \<Rightarrow> dailyBucket list \<Rightarrow> dailyBucket list" where
  "recentWindow cfg timeSeries = js_slice timeSeries (- short (analysisWindows cfg)) None"

definition previousWindow :: "config \<Rightarrow> dailyBucket list \<Rightarrow> dailyBucket list" where
  "previousWindow cfg timeSeries =
     js_slice timeSeries (- medium (analysisWindows cfg)) (Some (- short (analysisWindows cfg)))"

text \<open>\<^verbatim>\<open>detectAnomalies(timeSeries)\<close>; the argument \<^term>\<open>None\<close> is a falsy one
  (\<^verbatim>\<open>null\<close>, \<^verbatim>\<open>undefined\<close>).\<close>

definition detectAnomalies :: "config \<Rightarrow> dailyBucket list option \<Rightarrow> anomaly list" where
  "detectAnomalies cfg timeSeries =
     (case timeSeries of
        None \<Rightarrow> []
      | Some ts \<Rightarrow>
          if length ts < 14 then []
          else (let recentData = recentWindow cfg ts;
                    previousData = previousWindow cfg ts
                in if length previousData = 0 then []
                   else volumeCheck cfg recentData previousData
                      @ impactCheck cfg recentData previousData
                      @ criticalCheck cfg recentData
                      @ categoryCheck recentData))"

subsection \<open>Linear regression and forecasting\<close>





text \<open>One day of \<^verbatim>\<open>trendData.daily\<close>, as \<^verbatim>\<open>calculateTrends\<close> builds it.\<close>

record trendDay =
  date :: int
  timestamp :: instant
  totalSignals :: nat
  totalImpact :: rat
  criticalCount :: nat
  bugCount :: nat
  featureCount :: nat
  avgUrgency :: rat
  enterpriseCount :: nat

text \<open>A prediction: \<open>date\<close> is the calendar day of \<^verbatim>\<open>futureDate\<close>, of which the
  source stores two localised strings; \<open>projectedSignals\<close> is \<^term>\<open>None\<close> when it
  is \<^verbatim>\<open>NaN\<close>.\<close>

record prediction =
  date :: int
  projectedSignals :: "int option"
  confidence :: int
  trend :: string






text \<open>The window of the daily time series in the words of the specification: the
  run of \<open>n\<close> successive calendar days that ends on the day of \<open>now\<close>, the oldest
  day first.\<close>

definition windowDays :: "instant \<Rightarrow> nat \<Rightarrow> int list" where
  "windowDays now n = map (\<lambda>i. dayKey now - int n + 1 + int i) [0..<n]"

text \<open>Retention in the words of the specification: the cohort is the set of
  users that have an event, the anchor day of a user is the calendar day of the
  earliest event, the activity days are the calendar days of all the events,
  and a user is retained at an offset when the anchor day plus the offset is an
  activity day.\<close>

definition cohort :: "event list \<Rightarrow> string set" where
  "cohort events = userId ` set events"

definition anchorDay :: "event list \<Rightarrow> string \<Rightarrow> int" where
  "anchorDay events u = dayKey (Min (event.timestamp ` {e \<in> set events. userId e = u}))"

definition activityDays :: "event list \<Rightarrow> string \<Rightarrow> int set" where
  "activityDays events u = dayKey ` event.timestamp ` {e \<in> set events. userId e = u}"

definition retainedAt :: "event list \<Rightarrow> int \<Rightarrow> string \<Rightarrow> bool" where
  "retainedAt events offset u \<longleftrightarrow> anchorDay events u + offset \<in> activityDays events u"

section \<open>Properties\<close>

subsection \<open>Linear regression\<close>

lemma fold_plus_sum_list: "fold (\<lambda>b a. a + b) xs (s::rat) = s + sum_list xs"
  by (induction xs arbitrary: s) (simp_all add: add.assoc)


lemma average_sum_list: "average xs = (if xs = [] then 0 else sum_list xs / of_nat (length xs))"
  by (simp add: average_def fold_plus_sum_list)








subsection \<open>Forecasting\<close>

lemma js_slice_last: "0 < k \<Longrightarrow> js_slice xs (- k) None = drop (length xs - nat k) xs"
  by (auto simp: js_slice_def Let_def max_def nat_diff_distrib' intro: arg_cong2 [where f = drop])

lemma dayKey_addDays: "dayKey (addDays d k) = dayKey d + k"
  by (simp add: dayKey_def addDays_def msPerDay_def)










subsection \<open>Funnel analysis\<close>

lemma set_fold_set_add: "set (fold set_add xs acc) = set acc \<union> set xs"
  by (induction xs arbitrary: acc) (auto simp: set_add_def)

lemma distinct_fold_set_add: "distinct acc \<Longrightarrow> distinct (fold set_add xs acc)"
  by (induction xs arbitrary: acc) (auto simp: set_add_def)

lemma set_new_Set: "set (new_Set xs) = set xs"
  by (simp add: new_Set_def set_fold_set_add)

lemma distinct_new_Set: "distinct (new_Set xs)"
  by (simp add: new_Set_def distinct_fold_set_add)

lemma length_new_Set: "length (new_Set xs) = card (set xs)"
  using distinct_card [OF distinct_new_Set, of xs] by (simp add: set_new_Set)

lemma map_of_fold_update:
  "map_of (fold (\<lambda>k m. AList.update k (f k) m) ks m0) k =
     (if k \<in> set ks then Some (f k) else map_of m0 k)"
  by (induction ks arbitrary: m0) (auto simp: update_conv')

lemma stepSize_usersByStep:
  "stepSize (usersByStep names events) s =
     (if s \<in> set names then card (userId ` {e \<in> set events. type e = s}) else 0)"
proof -
  have "set (map userId (filter (\<lambda>e. type e = s) events)) = userId ` {e \<in> set events. type e = s}"
    by auto
  then show ?thesis
    by (simp add: stepSize_def usersByStep_def map_of_fold_update length_new_Set del: set_map set_filter)
qed

lemma funnel_steps_nth:
  assumes "i < length (funnelSteps cfg)"
  shows "steps (computeFunnelAnalysis cfg events) ! i =
           funnelEntry (funnelSteps cfg) (usersByStep (funnelSteps cfg) events) (i, funnelSteps cfg ! i)"
  using assms by (simp add: computeFunnelAnalysis_def Let_def nth_enumerate_eq)

lemma funnel_steps_length:
  "length (steps (computeFunnelAnalysis cfg events)) = length (funnelSteps cfg)"
  by (simp add: computeFunnelAnalysis_def Let_def)

lemma funnel_users_nth:
  assumes "i < length (funnelSteps cfg)"
  shows "users (steps (computeFunnelAnalysis cfg events) ! i) =
           card (userId ` {e \<in> set events. type e = funnelSteps cfg ! i})"
  using assms by (simp add: funnel_steps_nth funnelEntry_def Let_def stepSize_usersByStep)

text \<open>
  Claim C2.  The funnel has set-membership semantics: the user count of every
  step is the number of distinct user ids among the events whose type is the
  name of that step.  It depends on the events of that type only: two event
  collections with the same events of a step's type give that step the same
  count, whatever events of earlier steps they hold, so a user who triggered
  only a later step is counted at that step.
\<close>

theorem funnel_set_membership:
  "map users (steps (computeFunnelAnalysis cfg events)) =
     map (\<lambda>s. card (userId ` {e \<in> set events. type e = s})) (funnelSteps cfg) \<and>
   (\<forall>i < length (funnelSteps cfg). \<forall>events'.
      filter (\<lambda>e. type e = funnelSteps cfg ! i) events' =
        filter (\<lambda>e. type e = funnelSteps cfg ! i) events \<longrightarrow>
      users (steps (computeFunnelAnalysis cfg events') ! i) =
        users (steps (computeFunnelAnalysis cfg events) ! i))"
proof
  show "map users (steps (computeFunnelAnalysis cfg events)) =
     map (\<lambda>s. card (userId ` {e \<in> set events. type e = s})) (funnelSteps cfg)"
    by (rule nth_equalityI) (simp_all add: funnel_steps_length funnel_users_nth)
next
  show "\<forall>i < length (funnelSteps cfg). \<forall>events'.
      filter (\<lambda>e. type e = funnelSteps cfg ! i) events' =
        filter (\<lambda>e. type e = funnelSteps cfg ! i) events \<longrightarrow>
      users (steps (computeFunnelAnalysis cfg events') ! i) =
        users (steps (computeFunnelAnalysis cfg events) ! i)"
  proof (intro allI impI)
    fix i events'
    assume i: "i < length (funnelSteps cfg)"
      and f: "filter (\<lambda>e. type e = funnelSteps cfg ! i) events' =
              filter (\<lambda>e. type e = funnelSteps cfg ! i) events"
    have "{e \<in> set events'. type e = funnelSteps cfg ! i} = {e \<in> set events. type e = funnelSteps cfg ! i}"
      using arg_cong [OF f, of set] by simp
    then show "users (steps (computeFunnelAnalysis cfg events') ! i) =
        users (steps (computeFunnelAnalysis cfg events) ! i)"
      using i by (simp add: funnel_users_nth)
  qed
qed

theorem funnel_set_membership_witness:
  "1 < length (funnelSteps CONFIG) \<and>
   filter (\<lambda>e. type e = funnelSteps CONFIG ! 1)
      [\<lparr> type = ''view_capture'', timestamp = 0, sessionId = ''s1'', userId = ''u1'' \<rparr>,
       \<lparr> type = ''view_capture'', timestamp = 9, sessionId = ''s2'', userId = ''u2'' \<rparr>] =
   filter (\<lambda>e. type e = funnelSteps CONFIG ! 1)
      [\<lparr> type = ''view_capture'', timestamp = 0, sessionId = ''s1'', userId = ''u1'' \<rparr>,
       \<lparr> type = ''app_open'', timestamp = 7, sessionId = ''s2'', userId = ''u2'' \<rparr>,
       \<lparr> type = ''view_capture'', timestamp = 9, sessionId = ''s2'', userId = ''u2'' \<rparr>] \<and>
   map users (steps (computeFunnelAnalysis CONFIG
      [\<lparr> type = ''view_capture'', timestamp = 0, sessionId = ''s1'', userId = ''u1'' \<rparr>,
       \<lparr> type = ''app_open'', timestamp = 7, sessionId = ''s2'', userId = ''u2'' \<rparr>,
       \<lparr> type = ''view_capture'', timestamp = 9, sessionId = ''s2'', userId = ''u2'' \<rparr>]))
     = [1, 2, 0, 0, 0] \<and>
   users (steps (computeFunnelAnalysis CONFIG
      [\<lparr> type = ''view_capture'', timestamp = 0, sessionId = ''s1'', userId = ''u1'' \<rparr>,
       \<lparr> type = ''view_capture'', timestamp = 9, sessionId = ''s2'', userId = ''u2'' \<rparr>]) ! 1)
     = 2"
proof -
  define E where "E =
      [\<lparr> type = ''view_capture'', timestamp = 0, sessionId = ''s1'', userId = ''u1'' \<rparr>,
       \<lparr> type = ''app_open'', timestamp = 7, sessionId = ''s2'', userId = ''u2'' \<rparr>,
       \<lparr> type = ''view_capture'', timestamp = 9, sessionId = ''s2'', userId = ''u2'' \<rparr>]"
  define E' where "E' =
      [\<lparr> type = ''view_capture'', timestamp = 0, sessionId = ''s1'', userId = ''u1'' \<rparr>,
       \<lparr> type = ''view_capture'', timestamp = 9, sessionId = ''s2'', userId = ''u2'' \<rparr>]"
  have l: "1 < length (funnelSteps CONFIG)" by (simp add: CONFIG_def)
  have f: "filter (\<lambda>e. type e = funnelSteps CONFIG ! 1) E' =
           filter (\<lambda>e. type e = funnelSteps CONFIG ! 1) E"
    by (simp add: CONFIG_def E_def E'_def)
  have u: "map users (steps (computeFunnelAnalysis CONFIG E)) = [1, 2, 0, 0, 0]"
    unfolding E_def by code_simp
  from funnel_set_membership [of CONFIG E] l f
  have "users (steps (computeFunnelAnalysis CONFIG E') ! 1) =
        users (steps (computeFunnelAnalysis CONFIG E) ! 1)"
    by blast
  also have "\<dots> = map users (steps (computeFunnelAnalysis CONFIG E)) ! 1"
    using l by (simp add: funnel_steps_length)
  also have "\<dots> = 2" by (simp only: u) simp
  finally have "users (steps (computeFunnelAnalysis CONFIG E') ! 1) = 2" .
  then show ?thesis using l f u unfolding E_def E'_def by simp
qed

text \<open>
  Claim C6.  The funnel has one entry per configured step.  The conversion rate
  of the first step is exactly 1, whatever its user count; the rate of a later
  step is its count divided by the count of the step before it, and 0 when that
  count is 0.  The drop-off is 0 for the first step and otherwise the count of
  the step before minus the step's own.  The overall conversion is the count of
  the last step divided by the count of the first, and 0 when the first step
  has no users or no step is configured.  Every division has a divisor that is
  not 0.
\<close>

theorem funnel_conversion:
  "length (steps (computeFunnelAnalysis cfg events)) = length (funnelSteps cfg) \<and>
   (\<forall>i < length (funnelSteps cfg).
      conversionRate (steps (computeFunnelAnalysis cfg events) ! i) =
        (if i = 0 then 1
         else if users (steps (computeFunnelAnalysis cfg events) ! (i - 1)) = 0 then 0
         else of_nat (users (steps (computeFunnelAnalysis cfg events) ! i)) /
              of_nat (users (steps (computeFunnelAnalysis cfg events) ! (i - 1)))) \<and>
      dropoffCount (steps (computeFunnelAnalysis cfg events) ! i) =
        (if i = 0 then 0
         else int (users (steps (computeFunnelAnalysis cfg events) ! (i - 1))) -
              int (users (steps (computeFunnelAnalysis cfg events) ! i)))) \<and>
   overallConversion (computeFunnelAnalysis cfg events) =
     (if funnelSteps cfg = [] then 0
      else if users (hd (steps (computeFunnelAnalysis cfg events))) = 0 then 0
      else of_nat (users (last (steps (computeFunnelAnalysis cfg events)))) /
           of_nat (users (hd (steps (computeFunnelAnalysis cfg events)))))"
proof (intro conjI allI impI)
  show "length (steps (computeFunnelAnalysis cfg events)) = length (funnelSteps cfg)"
    by (rule funnel_steps_length)
next
  fix i assume i: "i < length (funnelSteps cfg)"
  then have p: "i - 1 < length (funnelSteps cfg)" by simp
  show "conversionRate (steps (computeFunnelAnalysis cfg events) ! i) =
        (if i = 0 then 1
         else if users (steps (computeFunnelAnalysis cfg events) ! (i - 1)) = 0 then 0
         else of_nat (users (steps (computeFunnelAnalysis cfg events) ! i)) /
              of_nat (users (steps (computeFunnelAnalysis cfg events) ! (i - 1))))"
    using i p by (simp add: funnel_steps_nth funnelEntry_def Let_def)
  show "dropoffCount (steps (computeFunnelAnalysis cfg events) ! i) =
        (if i = 0 then 0
         else int (users (steps (computeFunnelAnalysis cfg events) ! (i - 1))) -
              int (users (steps (computeFunnelAnalysis cfg events) ! i)))"
    using i p by (simp add: funnel_steps_nth funnelEntry_def Let_def)
next
  show "overallConversion (computeFunnelAnalysis cfg events) =
     (if funnelSteps cfg = [] then 0
      else if users (hd (steps (computeFunnelAnalysis cfg events))) = 0 then 0
      else of_nat (users (last (steps (computeFunnelAnalysis cfg events)))) /
           of_nat (users (hd (steps (computeFunnelAnalysis cfg events)))))"
    by (cases "funnelSteps cfg") (simp_all add: computeFunnelAnalysis_def Let_def)
qed


theorem funnel_conversion_witness:
  "conversionRate (steps (computeFunnelAnalysis
      (CONFIG\<lparr>funnelSteps := [''app_open'', ''view_capture'', ''signal_captured'']\<rparr>)
      [\<lparr> type = ''app_open'', timestamp = 0, sessionId = ''s1'', userId = ''u1'' \<rparr>,
       \<lparr> type = ''app_open'', timestamp = 1, sessionId = ''s2'', userId = ''u2'' \<rparr>,
       \<lparr> type = ''app_open'', timestamp = 2, sessionId = ''s3'', userId = ''u3'' \<rparr>,
       \<lparr> type = ''app_open'', timestamp = 3, sessionId = ''s4'', userId = ''u4'' \<rparr>,
       \<lparr> type = ''view_capture'', timestamp = 4, sessionId = ''s1'', userId = ''u1'' \<rparr>,
       \<lparr> type = ''view_capture'', timestamp = 5, sessionId = ''s2'', userId = ''u2'' \<rparr>,
       \<lparr> type = ''signal_captured'', timestamp = 6, sessionId = ''s1'', userId = ''u1'' \<rparr>]) ! 0) = 1 \<and>
   conversionRate (steps (computeFunnelAnalysis
      (CONFIG\<lparr>funnelSteps := [''app_open'', ''view_capture'', ''signal_captured'']\<rparr>)
      [\<lparr> type = ''app_open'', timestamp = 0, sessionId = ''s1'', userId = ''u1'' \<rparr>,
       \<lparr> type = ''app_open'', timestamp = 1, sessionId = ''s2'', userId = ''u2'' \<rparr>,
       \<lparr> type = ''app_open'', timestamp = 2, sessionId = ''s3'', userId = ''u3'' \<rparr>,
       \<lparr> type = ''app_open'', timestamp = 3, sessionId = ''s4'', userId = ''u4'' \<rparr>,
       \<lparr> type = ''view_capture'', timestamp = 4, sessionId = ''s1'', userId = ''u1'' \<rparr>,
       \<lparr> type = ''view_capture'', timestamp = 5, sessionId = ''s2'', userId = ''u2'' \<rparr>,
       \<lparr> type = ''signal_captured'', timestamp = 6, sessionId = ''s1'', userId = ''u1'' \<rparr>]) ! 1) = 1 / 2 \<and>
   conversionRate (steps (computeFunnelAnalysis
      (CONFIG\<lparr>funnelSteps := [''app_open'', ''view_capture'', ''signal_captured'']\<rparr>)
      [\<lparr> type = ''app_open'', timestamp = 0, sessionId = ''s1'', userId = ''u1'' \<rparr>,
       \<lparr> type = ''app_open'', timestamp = 1, sessionId = ''s2'', userId = ''u2'' \<rparr>,
       \<lparr> type = ''app_open'', timestamp = 2, sessionId = ''s3'', userId = ''u3'' \<rparr>,
       \<lparr> type = ''app_open'', timestamp = 3, sessionId = ''s4'', userId = ''u4'' \<rparr>,
       \<lparr> type = ''view_capture'', timestamp = 4, sessionId = ''s1'', userId = ''u1'' \<rparr>,
       \<lparr> type = ''view_capture'', timestamp = 5, sessionId = ''s2'', userId = ''u2'' \<rparr>,
       \<lparr> type = ''signal_captured'', timestamp = 6, sessionId = ''s1'', userId = ''u1'' \<rparr>]) ! 2) = 1 / 2 \<and>
   overallConversion (computeFunnelAnalysis
      (CONFIG\<lparr>funnelSteps := [''app_open'', ''view_capture'', ''signal_captured'']\<rparr>)
      [\<lparr> type = ''app_open'', timestamp = 0, sessionId = ''s1'', userId = ''u1'' \<rparr>,
       \<lparr> type = ''app_open'', timestamp = 1, sessionId = ''s2'', userId = ''u2'' \<rparr>,
       \<lparr> type = ''app_open'', timestamp = 2, sessionId = ''s3'', userId = ''u3'' \<rparr>,
       \<lparr> type = ''app_open'', timestamp = 3, sessionId = ''s4'', userId = ''u4'' \<rparr>,
       \<lparr> type = ''view_capture'', timestamp = 4, sessionId = ''s1'', userId = ''u1'' \<rparr>,
       \<lparr> type = ''view_capture'', timestamp = 5, sessionId = ''s2'', userId = ''u2'' \<rparr>,
       \<lparr> type = ''signal_captured'', timestamp = 6, sessionId = ''s1'', userId = ''u1'' \<rparr>]) = 1 / 4 \<and>
   conversionRate (steps (computeFunnelAnalysis CONFIG []) ! 0) = 1 \<and>
   conversionRate (steps (computeFunnelAnalysis CONFIG []) ! 1) = 0 \<and>
   overallConversion (computeFunnelAnalysis CONFIG []) = 0"
proof -
  define cfg where "cfg = CONFIG\<lparr>funnelSteps := [''app_open'', ''view_capture'', ''signal_captured'']\<rparr>"
  define E where "E =
      [\<lparr> type = ''app_open'', timestamp = 0, sessionId = ''s1'', userId = ''u1'' \<rparr>,
       \<lparr> type = ''app_open'', timestamp = 1, sessionId = ''s2'', userId = ''u2'' \<rparr>,
       \<lparr> type = ''app_open'', timestamp = 2, sessionId = ''s3'', userId = ''u3'' \<rparr>,
       \<lparr> type = ''app_open'', timestamp = 3, sessionId = ''s4'', userId = ''u4'' \<rparr>,
       \<lparr> type = ''view_capture'', timestamp = 4, sessionId = ''s1'', userId = ''u1'' \<rparr>,
       \<lparr> type = ''view_capture'', timestamp = 5, sessionId = ''s2'', userId = ''u2'' \<rparr>,
       \<lparr> type = ''signal_captured'', timestamp = 6, sessionId = ''s1'', userId = ''u1'' \<rparr>]"
  define fd where "fd = steps (computeFunnelAnalysis cfg E)"
  define fe where "fe = steps (computeFunnelAnalysis CONFIG [])"
  have n: "funnelSteps cfg = [''app_open'', ''view_capture'', ''signal_captured'']"
    by (simp add: cfg_def)
  have n0: "length (funnelSteps CONFIG) = 5" by (simp add: CONFIG_def)
  have u: "map users fd = [4, 2, 1]"
    unfolding fd_def cfg_def E_def by code_simp
  have u0: "map users fe = [0, 0, 0, 0, 0]"
    unfolding fe_def by code_simp
  have len: "length fd = 3" "length fe = 5"
    using funnel_conversion [of cfg E] funnel_conversion [of CONFIG "[]"]
    by (simp_all add: fd_def fe_def n n0)
  have us: "users (fd ! 0) = 4" "users (fd ! 1) = 2" "users (fd ! 2) = 1"
    using arg_cong [OF u, of "\<lambda>l. l ! 0"] arg_cong [OF u, of "\<lambda>l. l ! 1"]
      arg_cong [OF u, of "\<lambda>l. l ! 2"] len by simp_all
  have us0: "users (fe ! 0) = 0" "users (fe ! 1) = 0"
    using arg_cong [OF u0, of "\<lambda>l. l ! 0"] arg_cong [OF u0, of "\<lambda>l. l ! 1"] len by simp_all
  have r: "conversionRate (fd ! 0) = 1" "conversionRate (fd ! 1) = 1 / 2"
      "conversionRate (fd ! 2) = 1 / 2"
    using funnel_conversion [of cfg E] us by (simp_all add: fd_def [symmetric] n)
  have r0: "conversionRate (fe ! 0) = 1" "conversionRate (fe ! 1) = 0"
    using funnel_conversion [of CONFIG "[]"] us0 by (simp_all add: fe_def [symmetric] n0)
  have ne: "fd \<noteq> []" "fe \<noteq> []" using len by auto
  have hl: "users (hd fd) = 4" "users (last fd) = 1" "users (hd fe) = 0"
    using us us0 len
    by (simp_all add: hd_conv_nth [OF ne(1)] hd_conv_nth [OF ne(2)] last_conv_nth [OF ne(1)])
  have c: "overallConversion (computeFunnelAnalysis cfg E) = 1 / 4"
    using funnel_conversion [of cfg E] hl by (simp add: fd_def [symmetric] n)
  have d: "overallConversion (computeFunnelAnalysis CONFIG []) = 0"
  proof -
    have "funnelSteps CONFIG \<noteq> []" using n0 by auto
    then show ?thesis
      using funnel_conversion [of CONFIG "[]"] hl by (simp add: fe_def [symmetric])
  qed
  show ?thesis using r r0 c d unfolding fd_def fe_def cfg_def E_def by simp
qed

subsection \<open>Anomaly detection\<close>

lemma js_slice_window:
  "0 < s \<Longrightarrow> s \<le> m \<Longrightarrow> nat m \<le> length xs \<Longrightarrow>
     js_slice xs (- m) (Some (- s)) = take (nat (m - s)) (drop (length xs - nat m) xs)"
  by (auto simp: js_slice_def Let_def max_def nat_diff_distrib' intro!: arg_cong2 [where f = take] arg_cong2 [where f = drop])

lemma recentWindow_CONFIG: "recentWindow CONFIG ts = drop (length ts - 7) ts"
  by (simp add: recentWindow_def CONFIG_def js_slice_last)

lemma previousWindow_CONFIG:
  "14 \<le> length ts \<Longrightarrow> previousWindow CONFIG ts = take 7 (drop (length ts - 14) ts)"
  by (simp add: previousWindow_def CONFIG_def js_slice_window)

lemma fold_plus_map: "fold (\<lambda>d acc. acc + f d) xs (s::nat) = s + sum_list (map f xs)"
  by (induction xs arbitrary: s) simp_all

lemma recentCritical_sum: "recentCritical ds = sum_list (map dailyBucket.criticalCount ds)"
  by (simp add: recentCritical_def fold_plus_map)

lemma recentTotal_sum: "recentTotal ds = sum_list (map signalCount ds)"
  by (simp add: recentTotal_def fold_plus_map)

lemma average_zero:
  assumes "\<forall>v \<in> set xs. v = 0"
  shows "average xs = 0"
proof -
  have "sum_list xs = 0" using assms by (induction xs) simp_all
  then show ?thesis by (simp add: average_sum_list)
qed

lemma detectAnomalies_short: "length ts < 14 \<Longrightarrow> detectAnomalies cfg (Some ts) = []"
  by (simp add: detectAnomalies_def)

lemma categoryCheck_quiet:
  assumes "\<forall>c. concentration ds = Some c \<longrightarrow> c \<le> 1 / 2"
  shows "categoryCheck ds = []"
  using assms
  by (auto simp: categoryCheck_def concentration_def Let_def split: option.splits prod.splits if_splits)

text \<open>
  Claim C8.  The anomaly detector returns the empty list for a missing series
  and for every series of fewer than 14 buckets.  It also returns the empty
  list whenever the volume change and the impact change are, in absolute
  value, below their thresholds, the critical ratio is below its threshold, and
  the concentration of the dominant category, where one is computed, is at most
  one half.  An empty list is an ordinary result of the function.
\<close>

theorem detectAnomalies_quiet:
  "detectAnomalies cfg None = [] \<and>
   (length ts < 14 \<longrightarrow> detectAnomalies cfg (Some ts) = []) \<and>
   (\<bar>volumeDelta (recentWindow cfg ts) (previousWindow cfg ts)\<bar>
       < signalVolumeDelta (anomalyThresholds cfg) \<and>
    \<bar>impactDelta (recentWindow cfg ts) (previousWindow cfg ts)\<bar>
       < impactScoreDelta (anomalyThresholds cfg) \<and>
    criticalRatio (recentWindow cfg ts) < criticalSignalRatio (anomalyThresholds cfg) \<and>
    (\<forall>c. concentration (recentWindow cfg ts) = Some c \<longrightarrow> c \<le> 1 / 2)
    \<longrightarrow> detectAnomalies cfg (Some ts) = [])"
proof (intro conjI impI)
  show "detectAnomalies cfg None = []" by (simp add: detectAnomalies_def)
next
  assume "length ts < 14"
  then show "detectAnomalies cfg (Some ts) = []" by (rule detectAnomalies_short)
next
  assume a: "\<bar>volumeDelta (recentWindow cfg ts) (previousWindow cfg ts)\<bar>
       < signalVolumeDelta (anomalyThresholds cfg) \<and>
    \<bar>impactDelta (recentWindow cfg ts) (previousWindow cfg ts)\<bar>
       < impactScoreDelta (anomalyThresholds cfg) \<and>
    criticalRatio (recentWindow cfg ts) < criticalSignalRatio (anomalyThresholds cfg) \<and>
    (\<forall>c. concentration (recentWindow cfg ts) = Some c \<longrightarrow> c \<le> 1 / 2)"
  then have v: "volumeCheck cfg (recentWindow cfg ts) (previousWindow cfg ts) = []"
    by (simp add: volumeCheck_def Let_def)
  from a have i: "impactCheck cfg (recentWindow cfg ts) (previousWindow cfg ts) = []"
    by (simp add: impactCheck_def Let_def)
  from a have c: "criticalCheck cfg (recentWindow cfg ts) = []"
    by (simp add: criticalCheck_def)
  from a have k: "categoryCheck (recentWindow cfg ts) = []"
    by (simp add: categoryCheck_quiet)
  show "detectAnomalies cfg (Some ts) = []"
    by (simp add: detectAnomalies_def Let_def v i c k)
qed

theorem detectAnomalies_quiet_witness:
  "detectAnomalies CONFIG (Some (map (\<lambda>k. emptyBucket (int k)) [0..<13])) = [] \<and>
   \<bar>volumeDelta
      (recentWindow CONFIG (map (\<lambda>k. (emptyBucket (int k))\<lparr>signalCount := 4, avgImpact := 50,
          categories := \<lparr> bug = 2, feature = 2, performance = 0, ux = 0, documentation = 0 \<rparr>\<rparr>)
        [0..<14]))
      (previousWindow CONFIG (map (\<lambda>k. (emptyBucket (int k))\<lparr>signalCount := 4, avgImpact := 50,
          categories := \<lparr> bug = 2, feature = 2, performance = 0, ux = 0, documentation = 0 \<rparr>\<rparr>)
        [0..<14]))\<bar> < signalVolumeDelta (anomalyThresholds CONFIG) \<and>
   concentration
      (recentWindow CONFIG (map (\<lambda>k. (emptyBucket (int k))\<lparr>signalCount := 4, avgImpact := 50,
          categories := \<lparr> bug = 2, feature = 2, performance = 0, ux = 0, documentation = 0 \<rparr>\<rparr>)
        [0..<14])) = Some (1 / 2) \<and>
   detectAnomalies CONFIG
      (Some (map (\<lambda>k. (emptyBucket (int k))\<lparr>signalCount := 4, avgImpact := 50,
          categories := \<lparr> bug = 2, feature = 2, performance = 0, ux = 0, documentation = 0 \<rparr>\<rparr>)
        [0..<14])) = []"
proof -
  define Q where "Q = map (\<lambda>k. (emptyBucket (int k))\<lparr>signalCount := 4, avgImpact := 50,
          categories := \<lparr> bug = 2, feature = 2, performance = 0, ux = 0, documentation = 0 \<rparr>\<rparr>)
        [0..<14]"
  define S where "S = map (\<lambda>k. emptyBucket (int k)) [0..<13]"
  have s: "length S < 14" by (simp add: S_def)
  have a: "detectAnomalies CONFIG (Some S) = []"
    using detectAnomalies_quiet [of CONFIG S] s by blast
  have v: "\<bar>volumeDelta (recentWindow CONFIG Q) (previousWindow CONFIG Q)\<bar>
       < signalVolumeDelta (anomalyThresholds CONFIG)"
    unfolding Q_def by code_simp
  have i: "\<bar>impactDelta (recentWindow CONFIG Q) (previousWindow CONFIG Q)\<bar>
       < impactScoreDelta (anomalyThresholds CONFIG)"
    unfolding Q_def by code_simp
  have c: "criticalRatio (recentWindow CONFIG Q) < criticalSignalRatio (anomalyThresholds CONFIG)"
    unfolding Q_def by code_simp
  have k: "concentration (recentWindow CONFIG Q) = Some (1 / 2)"
    unfolding Q_def by code_simp
  have b: "detectAnomalies CONFIG (Some Q) = []"
    using detectAnomalies_quiet [of CONFIG Q] v i c k by simp
  show ?thesis using a b v k unfolding Q_def S_def by simp
qed

text \<open>
  Claim C1.  Take a series of at least 14 buckets in which every bucket before
  the last 7 has no signal, with the thresholds and windows of \<open>CONFIG\<close>.  The
  relative volume change is then 0, the result holds no volume anomaly, and
  when the last 7 buckets hold a signal and the critical ones among them are at
  least the fraction \<open>criticalSignalRatio\<close> (0.15) of all, the result holds the
  critical-ratio anomaly with that fraction and the two counts: 20 critical
  signals out of 35 are reported.
\<close>

theorem zero_previous_window:
  assumes "14 \<le> length ts"
    and "\<forall>i < length ts - 7. signalCount (ts ! i) = 0"
  shows "volumeDelta (recentWindow CONFIG ts) (previousWindow CONFIG ts) = 0 \<and>
         (\<forall>a \<in> set (detectAnomalies CONFIG (Some ts)).
            anomalyType a \<noteq> ''signal_volume_anomaly'') \<and>
         (0 < sum_list (map signalCount (drop (length ts - 7) ts)) \<and>
          criticalSignalRatio (anomalyThresholds CONFIG) \<le>
            of_nat (sum_list (map dailyBucket.criticalCount (drop (length ts - 7) ts))) /
            of_nat (sum_list (map signalCount (drop (length ts - 7) ts)))
          \<longrightarrow> Critical_signal_spike High
                (of_nat (sum_list (map dailyBucket.criticalCount (drop (length ts - 7) ts))) /
                 of_nat (sum_list (map signalCount (drop (length ts - 7) ts))))
                (sum_list (map dailyBucket.criticalCount (drop (length ts - 7) ts)))
                (sum_list (map signalCount (drop (length ts - 7) ts)))
              \<in> set (detectAnomalies CONFIG (Some ts)))"
proof -
  define recent where "recent = recentWindow CONFIG ts"
  define previous where "previous = previousWindow CONFIG ts"
  have r: "recent = drop (length ts - 7) ts"
    by (simp add: recent_def recentWindow_CONFIG)
  have p: "previous = take 7 (drop (length ts - 14) ts)"
    using assms(1) by (simp add: previous_def previousWindow_CONFIG)
  have plen: "length previous = 7" using assms(1) by (simp add: p)
  then have pne: "previous \<noteq> []" by auto
  have pz: "signalCount b = 0" if "b \<in> set previous" for b
  proof -
    from that obtain j where j: "j < 7" "b = previous ! j"
      using plen by (metis in_set_conv_nth)
    then have "b = ts ! (length ts - 14 + j)"
      using assms(1) by (simp add: p)
    moreover have "length ts - 14 + j < length ts - 7" using j(1) assms(1) by simp
    ultimately show ?thesis using assms(2) by simp
  qed
  have "average (map (\<lambda>d. of_nat (signalCount d)) previous) = 0"
    by (rule average_zero) (auto simp: pz)
  then have vd: "volumeDelta recent previous = 0"
    by (simp add: volumeDelta_def relativeDelta_def)
  have vc: "volumeCheck CONFIG recent previous = []"
    by (simp add: volumeCheck_def Let_def vd CONFIG_def)
  have da: "detectAnomalies CONFIG (Some ts) =
      impactCheck CONFIG recent previous @ criticalCheck CONFIG recent @ categoryCheck recent"
    using assms(1) pne
    by (simp add: detectAnomalies_def Let_def recent_def [symmetric] previous_def [symmetric] vc)
  have no_volume: "\<forall>a \<in> set (detectAnomalies CONFIG (Some ts)).
      anomalyType a \<noteq> ''signal_volume_anomaly''"
    unfolding da
    by (auto simp: impactCheck_def criticalCheck_def categoryCheck_def Let_def
        split: option.splits if_splits)
  have crit: "Critical_signal_spike High
                (of_nat (sum_list (map dailyBucket.criticalCount recent)) /
                 of_nat (sum_list (map signalCount recent)))
                (sum_list (map dailyBucket.criticalCount recent))
                (sum_list (map signalCount recent))
              \<in> set (detectAnomalies CONFIG (Some ts))"
    if "0 < sum_list (map signalCount recent)"
      and "criticalSignalRatio (anomalyThresholds CONFIG) \<le>
            of_nat (sum_list (map dailyBucket.criticalCount recent)) /
            of_nat (sum_list (map signalCount recent))"
    using that unfolding da
    by (simp add: criticalCheck_def criticalRatio_def recentCritical_sum recentTotal_sum)
  show ?thesis
    using vd no_volume crit unfolding r [symmetric] recent_def [symmetric] previous_def [symmetric]
    by blast
qed


theorem zero_previous_window_witness:
  "14 \<le> length (map (\<lambda>k. emptyBucket (int k)) [0..<7] @
       map (\<lambda>k. (emptyBucket (int k))\<lparr>signalCount := 5,
                    dailyBucket.criticalCount := (if k < 11 then 5 else 0)\<rparr>) [7..<14]) \<and>
   volumeDelta
     (recentWindow CONFIG (map (\<lambda>k. emptyBucket (int k)) [0..<7] @
       map (\<lambda>k. (emptyBucket (int k))\<lparr>signalCount := 5,
                    dailyBucket.criticalCount := (if k < 11 then 5 else 0)\<rparr>) [7..<14]))
     (previousWindow CONFIG (map (\<lambda>k. emptyBucket (int k)) [0..<7] @
       map (\<lambda>k. (emptyBucket (int k))\<lparr>signalCount := 5,
                    dailyBucket.criticalCount := (if k < 11 then 5 else 0)\<rparr>) [7..<14])) = 0 \<and>
   Critical_signal_spike High (20 / 35) 20 35 \<in> set (detectAnomalies CONFIG
     (Some (map (\<lambda>k. emptyBucket (int k)) [0..<7] @
       map (\<lambda>k. (emptyBucket (int k))\<lparr>signalCount := 5,
                    dailyBucket.criticalCount := (if k < 11 then 5 else 0)\<rparr>) [7..<14])))"
proof -
  define W where "W = map (\<lambda>k. emptyBucket (int k)) [0..<7] @
       map (\<lambda>k. (emptyBucket (int k))\<lparr>signalCount := 5,
                    dailyBucket.criticalCount := (if k < 11 then 5 else 0)\<rparr>) [7..<14]"
  have len: "length W = 14" by (simp add: W_def)
  then have l: "14 \<le> length W" by simp
  have z: "\<forall>i < length W - 7. signalCount (W ! i) = 0"
  proof (intro allI impI)
    fix i assume "i < length W - 7"
    then have i: "i < 7" using len by simp
    then have "W ! i = emptyBucket (int i)"
      unfolding W_def by (simp add: nth_append del: upt_Suc)
    then show "signalCount (W ! i) = 0" by (simp add: emptyBucket_def)
  qed
  have d: "drop (length W - 7) W =
      map (\<lambda>k. (emptyBucket (int k))\<lparr>signalCount := 5,
                    dailyBucket.criticalCount := (if k < 11 then 5 else 0)\<rparr>) [7..<14]"
    unfolding len by (simp add: W_def)
  have t: "sum_list (map signalCount (drop (length W - 7) W)) = 35"
    unfolding d by code_simp
  have c: "sum_list (map dailyBucket.criticalCount (drop (length W - 7) W)) = 20"
    unfolding d by code_simp
  have th: "criticalSignalRatio (anomalyThresholds CONFIG) \<le> 20 / 35"
    by (simp add: CONFIG_def)
  from zero_previous_window [OF l z] t c th
  have "volumeDelta (recentWindow CONFIG W) (previousWindow CONFIG W) = 0 \<and>
        Critical_signal_spike High (20 / 35) 20 35 \<in> set (detectAnomalies CONFIG (Some W))"
    by simp
  then show ?thesis using l unfolding W_def by simp
qed

subsection \<open>Daily time series\<close>

lemma update_fresh: "k \<notin> fst ` set m \<Longrightarrow> AList.update k v m = m @ [(k, v)]"
  by (induction m) auto

lemma windowDays_Suc: "windowDays now (Suc n) = (dayKey now - int n) # windowDays now n"
proof -
  have "[0..<Suc n] = 0 # map Suc [0..<n]"
    by (simp add: upt_conv_Cons map_Suc_upt del: upt_Suc)
  then show ?thesis
    by (simp add: windowDays_def comp_def del: upt_Suc)
qed

lemma set_windowDays: "set (windowDays now n) = {k. dayKey now - int n < k \<and> k \<le> dayKey now}"
proof (rule set_eqI)
  fix k
  show "k \<in> set (windowDays now n) \<longleftrightarrow> k \<in> {k. dayKey now - int n < k \<and> k \<le> dayKey now}"
  proof
    assume "k \<in> set (windowDays now n)"
    then show "k \<in> {k. dayKey now - int n < k \<and> k \<le> dayKey now}"
      by (auto simp: windowDays_def)
  next
    assume "k \<in> {k. dayKey now - int n < k \<and> k \<le> dayKey now}"
    then have "nat (k - (dayKey now - int n + 1)) < n"
      and "k = dayKey now - int n + 1 + int (nat (k - (dayKey now - int n + 1)))"
      by auto
    then show "k \<in> set (windowDays now n)"
      unfolding windowDays_def by (metis (no_types, lifting) atLeast0LessThan imageI lessThan_iff list.set_map set_upt)
  qed
qed

lemma distinct_windowDays: "distinct (windowDays now n)"
  by (simp add: windowDays_def distinct_map inj_on_def)

lemma initDays_append:
  "\<forall>k \<in> set (windowDays today n). k \<notin> fst ` set m \<Longrightarrow>
     initDays today n m = m @ map (\<lambda>k. (k, emptyBucket k)) (windowDays today n)"
proof (induction n arbitrary: m)
  case 0
  then show ?case by (simp add: windowDays_def)
next
  case (Suc n)
  let ?k = "dayKey today - int n"
  have k: "dayKey (addDays today (- int n)) = ?k" by (simp add: dayKey_addDays)
  from Suc.prems have fresh: "?k \<notin> fst ` set m" by (simp add: windowDays_Suc)
  have "?k \<notin> set (windowDays today n)" by (simp add: set_windowDays)
  with Suc.prems have "\<forall>k \<in> set (windowDays today n). k \<notin> fst ` set (m @ [(?k, emptyBucket ?k)])"
    by (auto simp: windowDays_Suc)
  from Suc.IH [OF this] show ?case
    by (simp add: k update_fresh [OF fresh] windowDays_Suc)
qed


lemma initDays_empty: "initDays today n [] = map (\<lambda>k. (k, emptyBucket k)) (windowDays today n)"
  using initDays_append [of today n "[]"] by simp

lemma update_distinct:
  "distinct (map fst m) \<Longrightarrow> map_of m k = Some b \<Longrightarrow>
     AList.update k v m = map (\<lambda>(k', b'). (k', if k' = k then v else b')) m"
proof (induction m)
  case Nil
  then show ?case by simp
next
  case (Cons p m)
  obtain k' b' where p: "p = (k', b')" by (cases p)
  show ?case
  proof (cases "k' = k")
    case True
    with Cons.prems p have "k \<notin> fst ` set m" by auto
    then have "map (\<lambda>(k', b'). (k', if k' = k then v else b')) m = m"
      by (induction m) auto
    with True p show ?thesis by simp
  next
    case False
    with Cons p show ?thesis by simp
  qed
qed

lemma addSignal_map:
  assumes "distinct (map fst m)"
  shows "addSignal now s m =
           map (\<lambda>(k, b). (k, if k = signalKey now s then countSignal s b else b)) m"
proof (cases "map_of m (signalKey now s)")
  case None
  then have "signalKey now s \<notin> fst ` set m" by (simp add: map_of_eq_None_iff)
  then have "map (\<lambda>(k, b). (k, if k = signalKey now s then countSignal s b else b)) m = m"
    by (induction m) auto
  with None show ?thesis by (simp add: addSignal_def)
next
  case (Some b)
  have "map (\<lambda>(k, b'). (k, if k = signalKey now s then countSignal s b else b')) m =
        map (\<lambda>(k, b). (k, if k = signalKey now s then countSignal s b else b)) m"
  proof (rule map_cong [OF refl])
    fix p assume "p \<in> set m"
    obtain k' b' where p: "p = (k', b')" by (cases p)
    with \<open>p \<in> set m\<close> assms have "map_of m k' = Some b'" by simp
    with Some p show "(case p of (k, b') \<Rightarrow> (k, if k = signalKey now s then countSignal s b else b')) =
        (case p of (k, b) \<Rightarrow> (k, if k = signalKey now s then countSignal s b else b))"
      by auto
  qed
  with Some show ?thesis
    by (simp add: addSignal_def Let_def update_distinct [OF assms Some])
qed

lemma map_fst_keep: "map fst (map (\<lambda>(k, b). (k, g k b)) m) = map fst m"
  by (induction m) auto

lemma fold_addSignal_map:
  "distinct (map fst m) \<Longrightarrow>
     fold (addSignal now) sigs m =
       map (\<lambda>(k, b). (k, fold countSignal (filter (\<lambda>s. signalKey now s = k) sigs) b)) m"
proof (induction sigs arbitrary: m)
  case Nil
  then show ?case by simp
next
  case (Cons s sigs)
  let ?m = "map (\<lambda>(k, b). (k, if k = signalKey now s then countSignal s b else b)) m"
  have d: "distinct (map fst ?m)" using Cons.prems by (simp only: map_fst_keep)
  have "fold (addSignal now) (s # sigs) m = fold (addSignal now) sigs ?m"
    by (simp add: addSignal_map [OF Cons.prems])
  also have "\<dots> = map (\<lambda>(k, b). (k, fold countSignal (filter (\<lambda>s. signalKey now s = k) sigs) b)) ?m"
    by (rule Cons.IH [OF d])
  also have "\<dots> = map (\<lambda>(k, b). (k, fold countSignal (filter (\<lambda>s. signalKey now s = k) (s # sigs)) b)) m"
    by (induction m) auto
  finally show ?case .
qed

text \<open>The bucket of one day: the signals of that day, counted into the empty bucket.\<close>

lemma computeDailyTimeSeries_buckets:
  "computeDailyTimeSeries now signals days =
     map (\<lambda>k. withAverage (fold countSignal (filter (\<lambda>s. signalKey now s = k) signals)
                             (emptyBucket k)))
       (windowDays now days)"
proof -
  have "distinct (map fst (map (\<lambda>k. (k, emptyBucket k)) (windowDays now days)))"
    by (simp add: comp_def distinct_windowDays)
  then show ?thesis
    by (simp add: computeDailyTimeSeries_def Let_def initDays_empty fold_addSignal_map comp_def)
qed

lemma signalCount_countSignal: "signalCount (countSignal s b) = signalCount b + 1"
  by (simp add: countSignal_def Let_def)

lemma date_countSignal: "dailyBucket.date (countSignal s b) = dailyBucket.date b"
  by (simp add: countSignal_def Let_def)

lemma signalCount_fold: "signalCount (fold countSignal ss b) = signalCount b + length ss"
  by (induction ss arbitrary: b) (simp_all add: signalCount_countSignal)

lemma date_fold: "dailyBucket.date (fold countSignal ss b) = dailyBucket.date b"
  by (induction ss arbitrary: b) (simp_all add: date_countSignal)

lemma withAverage_fields:
  "signalCount (withAverage b) = signalCount b" "dailyBucket.date (withAverage b) = dailyBucket.date b"
  by (simp_all add: withAverage_def)

lemma withAverage_emptyBucket: "withAverage (emptyBucket k) = emptyBucket k"
  by (simp add: withAverage_def emptyBucket_def)

lemma length_filter_disjoint:
  "\<forall>x \<in> set xs. \<not> (P x \<and> Q x) \<Longrightarrow>
     length (filter P xs) + length (filter Q xs) = length (filter (\<lambda>x. P x \<or> Q x) xs)"
  by (induction xs) auto

lemma sum_length_filter:
  "distinct ks \<Longrightarrow>
     sum_list (map (\<lambda>k. length (filter (\<lambda>s. f s = k) xs)) ks) =
       length (filter (\<lambda>s. f s \<in> set ks) xs)"
proof (induction ks)
  case Nil
  then show ?case by simp
next
  case (Cons k ks)
  then have "\<forall>x \<in> set xs. \<not> (f x = k \<and> f x \<in> set ks)" by auto
  from length_filter_disjoint [OF this] Cons show ?case by simp
qed

lemma series_nth:
  "i < days \<Longrightarrow>
     computeDailyTimeSeries now signals days ! i =
       withAverage (fold countSignal
         (filter (\<lambda>s. signalKey now s = dayKey now - int days + 1 + int i) signals)
         (emptyBucket (dayKey now - int days + 1 + int i)))"
  by (simp add: computeDailyTimeSeries_buckets windowDays_def)

lemma series_length: "length (computeDailyTimeSeries now signals days) = days"
  by (simp add: computeDailyTimeSeries_buckets windowDays_def)

lemma series_date:
  "i < days \<Longrightarrow>
     dailyBucket.date (computeDailyTimeSeries now signals days ! i) = dayKey now - int days + 1 + int i"
  by (simp add: series_nth withAverage_fields date_fold emptyBucket_def)

lemma series_signalCount:
  "i < days \<Longrightarrow>
     signalCount (computeDailyTimeSeries now signals days ! i) =
       length (filter (\<lambda>s. signalKey now s = dayKey now - int days + 1 + int i) signals)"
  by (simp add: series_nth withAverage_fields signalCount_fold emptyBucket_def)

lemma series_filter_window:
  assumes "\<forall>k \<in> set (windowDays now days).
             filter (\<lambda>s. signalKey now s = k) signals' = filter (\<lambda>s. signalKey now s = k) signals"
  shows "computeDailyTimeSeries now signals' days = computeDailyTimeSeries now signals days"
  unfolding computeDailyTimeSeries_buckets
  by (rule map_cong [OF refl]) (simp add: assms)

text \<open>
  Claim C4.  For every list of signals and every window length \<open>days\<close> the
  series has exactly \<open>days\<close> buckets.  Their dates are successive calendar days,
  the oldest first, and the last one is the day of \<open>now\<close>.  A day of the window on
  which no signal falls is there all the same, as the bucket in which every
  count is zero.
\<close>

theorem daily_series_window:
  "length (computeDailyTimeSeries now signals days) = days \<and>
   map dailyBucket.date (computeDailyTimeSeries now signals days) =
     map (\<lambda>i. dayKey now - int days + 1 + int i) [0..<days] \<and>
   (0 < days \<longrightarrow> dailyBucket.date (last (computeDailyTimeSeries now signals days)) = dayKey now) \<and>
   (\<forall>i. Suc i < days \<longrightarrow>
      dailyBucket.date (computeDailyTimeSeries now signals days ! Suc i) =
        dailyBucket.date (computeDailyTimeSeries now signals days ! i) + 1) \<and>
   (\<forall>i < days.
      (\<forall>s \<in> set signals. signalKey now s \<noteq> dayKey now - int days + 1 + int i) \<longrightarrow>
      computeDailyTimeSeries now signals days ! i = emptyBucket (dayKey now - int days + 1 + int i))"
proof (intro conjI allI impI)
  show "length (computeDailyTimeSeries now signals days) = days" by (rule series_length)
next
  show "map dailyBucket.date (computeDailyTimeSeries now signals days) =
     map (\<lambda>i. dayKey now - int days + 1 + int i) [0..<days]"
    by (rule nth_equalityI) (simp_all add: series_length series_date)
next
  assume d: "0 < days"
  then have "computeDailyTimeSeries now signals days \<noteq> []"
    using series_length [of now signals days] by auto
  then have "last (computeDailyTimeSeries now signals days) =
      computeDailyTimeSeries now signals days ! (days - 1)"
    by (simp add: last_conv_nth series_length)
  then show "dailyBucket.date (last (computeDailyTimeSeries now signals days)) = dayKey now"
    using d by (simp add: series_date of_nat_diff)
next
  fix i assume "Suc i < days"
  then show "dailyBucket.date (computeDailyTimeSeries now signals days ! Suc i) =
        dailyBucket.date (computeDailyTimeSeries now signals days ! i) + 1"
    by (simp add: series_date)
next
  fix i assume i: "i < days"
    and e: "\<forall>s \<in> set signals. signalKey now s \<noteq> dayKey now - int days + 1 + int i"
  from e have "filter (\<lambda>s. signalKey now s = dayKey now - int days + 1 + int i) signals = []"
    by (simp add: filter_empty_conv)
  then show "computeDailyTimeSeries now signals days ! i =
      emptyBucket (dayKey now - int days + 1 + int i)"
    using i by (simp add: series_nth withAverage_emptyBucket)
qed

theorem daily_series_window_witness:
  "length (computeDailyTimeSeries 8640000005
      [\<lparr> impact = Some 40, urgency = Some ''critical'', sentiment = None,
         category = Some ''bug'', tier = Some ''pro'', timestamp = None \<rparr>] 3) = 3 \<and>
   map dailyBucket.date (computeDailyTimeSeries 8640000005
      [\<lparr> impact = Some 40, urgency = Some ''critical'', sentiment = None,
         category = Some ''bug'', tier = Some ''pro'', timestamp = None \<rparr>] 3) = [98, 99, 100] \<and>
   computeDailyTimeSeries 8640000005
      [\<lparr> impact = Some 40, urgency = Some ''critical'', sentiment = None,
         category = Some ''bug'', tier = Some ''pro'', timestamp = None \<rparr>] 3 ! 0 = emptyBucket 98"
proof -
  define S where "S = \<lparr> impact = Some 40, urgency = Some ''critical'', sentiment = None,
         category = Some ''bug'', tier = Some ''pro'', timestamp = (None :: instant option) \<rparr>"
  have k: "dayKey 8640000005 = 100" by (simp add: dayKey_def msPerDay_def)
  have e: "\<forall>s \<in> set [S]. signalKey 8640000005 s \<noteq> dayKey 8640000005 - int 3 + 1 + int 0"
    by (simp add: S_def signalKey_def k)
  have u: "[0..<3] = [0, 1, 2]" by (simp add: upt_conv_Cons)
  from daily_series_window [of 8640000005 "[S]" 3] e
  have "length (computeDailyTimeSeries 8640000005 [S] 3) = 3 \<and>
        map dailyBucket.date (computeDailyTimeSeries 8640000005 [S] 3) = [98, 99, 100] \<and>
        computeDailyTimeSeries 8640000005 [S] 3 ! 0 = emptyBucket 98"
    by (simp add: k u)
  then show ?thesis unfolding S_def by simp
qed

text \<open>
  Claim C5.  The signal counts of all buckets add up to the number of signals
  whose day key is one of the days of the window.  The series is the one
  computed from those signals alone, and a signal whose day key is outside the
  window can be taken out of the input at any position without changing any
  bucket.  The function is total: no input makes it fail.
\<close>

theorem daily_series_counts:
  "sum_list (map signalCount (computeDailyTimeSeries now signals days)) =
     length (filter (\<lambda>s. dayKey now - int days < signalKey now s \<and> signalKey now s \<le> dayKey now)
               signals) \<and>
   computeDailyTimeSeries now signals days =
     computeDailyTimeSeries now
       (filter (\<lambda>s. dayKey now - int days < signalKey now s \<and> signalKey now s \<le> dayKey now)
          signals) days \<and>
   (\<forall>s before after.
      \<not> (dayKey now - int days < signalKey now s \<and> signalKey now s \<le> dayKey now) \<longrightarrow>
      computeDailyTimeSeries now (before @ s # after) days =
        computeDailyTimeSeries now (before @ after) days)"
proof (intro conjI allI impI)
  have "sum_list (map signalCount (computeDailyTimeSeries now signals days)) =
      sum_list (map (\<lambda>k. length (filter (\<lambda>s. signalKey now s = k) signals)) (windowDays now days))"
    by (simp add: computeDailyTimeSeries_buckets comp_def withAverage_fields signalCount_fold
        emptyBucket_def)
  also have "\<dots> = length (filter (\<lambda>s. signalKey now s \<in> set (windowDays now days)) signals)"
    by (rule sum_length_filter [OF distinct_windowDays])
  finally show "sum_list (map signalCount (computeDailyTimeSeries now signals days)) =
     length (filter (\<lambda>s. dayKey now - int days < signalKey now s \<and> signalKey now s \<le> dayKey now)
               signals)"
    by (simp add: set_windowDays)
next
  show "computeDailyTimeSeries now signals days =
     computeDailyTimeSeries now
       (filter (\<lambda>s. dayKey now - int days < signalKey now s \<and> signalKey now s \<le> dayKey now)
          signals) days"
    by (rule series_filter_window [symmetric])
      (auto simp: set_windowDays intro!: filter_cong)
next
  fix s before after
  assume "\<not> (dayKey now - int days < signalKey now s \<and> signalKey now s \<le> dayKey now)"
  then show "computeDailyTimeSeries now (before @ s # after) days =
        computeDailyTimeSeries now (before @ after) days"
    by (intro series_filter_window) (auto simp: set_windowDays)
qed

theorem daily_series_counts_witness:
  "sum_list (map signalCount (computeDailyTimeSeries 8640000005
      [\<lparr> impact = Some 40, urgency = Some ''critical'', sentiment = None,
         category = Some ''bug'', tier = Some ''pro'', timestamp = None \<rparr>,
       \<lparr> impact = Some 10, urgency = Some ''low'', sentiment = None,
         category = Some ''ux'', tier = None, timestamp = Some 4320000000 \<rparr>,
       \<lparr> impact = Some 70, urgency = Some ''high'', sentiment = None,
         category = Some ''feature'', tier = Some ''free'', timestamp = Some 8553600007 \<rparr>] 3)) = 2 \<and>
   computeDailyTimeSeries 8640000005
      [\<lparr> impact = Some 40, urgency = Some ''critical'', sentiment = None,
         category = Some ''bug'', tier = Some ''pro'', timestamp = None \<rparr>,
       \<lparr> impact = Some 10, urgency = Some ''low'', sentiment = None,
         category = Some ''ux'', tier = None, timestamp = Some 4320000000 \<rparr>,
       \<lparr> impact = Some 70, urgency = Some ''high'', sentiment = None,
         category = Some ''feature'', tier = Some ''free'', timestamp = Some 8553600007 \<rparr>] 3 =
   computeDailyTimeSeries 8640000005
      [\<lparr> impact = Some 40, urgency = Some ''critical'', sentiment = None,
         category = Some ''bug'', tier = Some ''pro'', timestamp = None \<rparr>,
       \<lparr> impact = Some 70, urgency = Some ''high'', sentiment = None,
         category = Some ''feature'', tier = Some ''free'', timestamp = Some 8553600007 \<rparr>] 3"
proof -
  define A where "A = \<lparr> impact = Some 40, urgency = Some ''critical'', sentiment = None,
         category = Some ''bug'', tier = Some ''pro'', timestamp = (None :: instant option) \<rparr>"
  define B where "B = \<lparr> impact = Some 10, urgency = Some ''low'', sentiment = None,
         category = Some ''ux'', tier = None, timestamp = Some (4320000000 :: instant) \<rparr>"
  define C where "C = \<lparr> impact = Some 70, urgency = Some ''high'', sentiment = None,
         category = Some ''feature'', tier = Some ''free'', timestamp = Some (8553600007 :: instant) \<rparr>"
  have k: "dayKey 8640000005 = 100" by (simp add: dayKey_def msPerDay_def)
  have ks: "signalKey 8640000005 A = 100" "signalKey 8640000005 B = 50" "signalKey 8640000005 C = 99"
    by (simp_all add: A_def B_def C_def signalKey_def dayKey_def msPerDay_def)
  have out: "\<not> (dayKey 8640000005 - int 3 < signalKey 8640000005 B \<and>
                 signalKey 8640000005 B \<le> dayKey 8640000005)"
    by (simp add: k ks)
  note t = daily_series_counts [of 8640000005 "[A, B, C]" 3]
  have "sum_list (map signalCount (computeDailyTimeSeries 8640000005 [A, B, C] 3)) = 2"
    using conjunct1 [OF t] by (simp add: k ks)
  moreover have "computeDailyTimeSeries 8640000005 ([A] @ B # [C]) 3 =
      computeDailyTimeSeries 8640000005 ([A] @ [C]) 3"
    using conjunct2 [OF conjunct2 [OF t]] out by blast
  ultimately show ?thesis unfolding A_def B_def C_def by simp
qed

text \<open>
  Claim C10.  A signal without a timestamp gets the day key of \<open>now\<close>.  When the
  window has at least one day the newest bucket is the one of that day, and
  its count is the number of signals that have no timestamp or have one on the
  day of \<open>now\<close>.  Every bucket counts all the signals whose day key is its date,
  so the signals that are skipped are those whose key is no day of the window.
\<close>

theorem missing_timestamp_today:
  "(signal.timestamp s = None \<longrightarrow> signalKey now s = dayKey now) \<and>
   (0 < days \<longrightarrow>
      dailyBucket.date (last (computeDailyTimeSeries now signals days)) = dayKey now \<and>
      signalCount (last (computeDailyTimeSeries now signals days)) =
        length (filter (\<lambda>s. case signal.timestamp s of
                               None \<Rightarrow> True
                             | Some t \<Rightarrow> dayKey t = dayKey now) signals)) \<and>
   (\<forall>i < days.
      signalCount (computeDailyTimeSeries now signals days ! i) =
        length (filter (\<lambda>s. signalKey now s =
                             dailyBucket.date (computeDailyTimeSeries now signals days ! i))
                  signals))"
proof (intro conjI allI impI)
  assume "signal.timestamp s = None"
  then show "signalKey now s = dayKey now" by (simp add: signalKey_def)
next
  assume d: "0 < days"
  then have "computeDailyTimeSeries now signals days \<noteq> []"
    using series_length [of now signals days] by auto
  then have l: "last (computeDailyTimeSeries now signals days) =
      computeDailyTimeSeries now signals days ! (days - 1)"
    by (simp add: last_conv_nth series_length)
  have k: "dayKey now - int days + 1 + int (days - 1) = dayKey now"
    using d by (simp add: of_nat_diff)
  show "dailyBucket.date (last (computeDailyTimeSeries now signals days)) = dayKey now"
    using d by (simp add: l series_date k)
  have "(\<lambda>s. signalKey now s = dayKey now) =
        (\<lambda>s. case signal.timestamp s of None \<Rightarrow> True | Some t \<Rightarrow> dayKey t = dayKey now)"
    by (rule ext) (simp add: signalKey_def split: option.splits)
  then show "signalCount (last (computeDailyTimeSeries now signals days)) =
        length (filter (\<lambda>s. case signal.timestamp s of
                               None \<Rightarrow> True
                             | Some t \<Rightarrow> dayKey t = dayKey now) signals)"
    using d by (simp add: l series_signalCount k)
next
  fix i assume "i < days"
  then show "signalCount (computeDailyTimeSeries now signals days ! i) =
        length (filter (\<lambda>s. signalKey now s =
                             dailyBucket.date (computeDailyTimeSeries now signals days ! i))
                  signals)"
    by (simp add: series_signalCount series_date)
qed


theorem missing_timestamp_today_witness:
  "signalKey 8640000005
      \<lparr> impact = Some 40, urgency = Some ''critical'', sentiment = None,
        category = Some ''bug'', tier = Some ''pro'', timestamp = None \<rparr> = dayKey 8640000005 \<and>
   dailyBucket.date (last (computeDailyTimeSeries 8640000005
      [\<lparr> impact = Some 40, urgency = Some ''critical'', sentiment = None,
         category = Some ''bug'', tier = Some ''pro'', timestamp = None \<rparr>,
       \<lparr> impact = Some 70, urgency = Some ''high'', sentiment = None,
         category = Some ''feature'', tier = Some ''free'', timestamp = Some 8553600007 \<rparr>] 3)) = 100 \<and>
   signalCount (last (computeDailyTimeSeries 8640000005
      [\<lparr> impact = Some 40, urgency = Some ''critical'', sentiment = None,
         category = Some ''bug'', tier = Some ''pro'', timestamp = None \<rparr>,
       \<lparr> impact = Some 70, urgency = Some ''high'', sentiment = None,
         category = Some ''feature'', tier = Some ''free'', timestamp = Some 8553600007 \<rparr>] 3)) = 1"
proof -
  define A where "A = \<lparr> impact = Some 40, urgency = Some ''critical'', sentiment = None,
         category = Some ''bug'', tier = Some ''pro'', timestamp = (None :: instant option) \<rparr>"
  define C where "C = \<lparr> impact = Some 70, urgency = Some ''high'', sentiment = None,
         category = Some ''feature'', tier = Some ''free'', timestamp = Some (8553600007 :: instant) \<rparr>"
  have k: "dayKey 8640000005 = 100" "dayKey 8553600007 = 99" by (simp_all add: dayKey_def msPerDay_def)
  have n: "signal.timestamp A = None" "signal.timestamp C = Some 8553600007" by (simp_all add: A_def C_def)
  have d: "0 < (3 :: nat)" by simp
  from missing_timestamp_today [of A 8640000005 3 "[A, C]"] n d
  have "signalKey 8640000005 A = dayKey 8640000005 \<and>
        dailyBucket.date (last (computeDailyTimeSeries 8640000005 [A, C] 3)) = 100 \<and>
        signalCount (last (computeDailyTimeSeries 8640000005 [A, C] 3)) = 1"
    by (simp add: k)
  then show ?thesis unfolding A_def C_def by simp
qed

subsection \<open>Retention analysis\<close>

lemma firstSeen_step:
  "map_of (userFirstSeen (trackActivity ev a)) =
     (map_of (userFirstSeen a))(userId ev \<mapsto>
        (case map_of (userFirstSeen a) (userId ev) of
           None \<Rightarrow> event.timestamp ev
         | Some t \<Rightarrow> min (event.timestamp ev) t))"
  by (auto simp: trackActivity_def Let_def update_conv' min_def fun_upd_idem_iff
      split: option.splits)

lemma firstSeen_keys_step:
  "map fst (userFirstSeen (trackActivity ev a)) =
     (if userId ev \<in> set (map fst (userFirstSeen a)) then map fst (userFirstSeen a)
      else map fst (userFirstSeen a) @ [userId ev])"
proof -
  have "k \<in> fst ` set m" if "map_of m k = Some v" for m :: "(string \<times> instant) list" and k v
    using that by (metis domI dom_map_of_conv_image_fst)
  then show ?thesis
    by (auto simp: trackActivity_def Let_def update_keys map_of_eq_None_iff split: option.splits)
qed

lemma activeDays_step:
  "map_of (userActiveDays (trackActivity ev a)) =
     (map_of (userActiveDays a))(userId ev \<mapsto>
        set_add (dayKey (event.timestamp ev))
          (case map_of (userActiveDays a) (userId ev) of None \<Rightarrow> [] | Some ds \<Rightarrow> ds))"
  by (auto simp: trackActivity_def Let_def update_conv' split: option.splits)

lemma buildActivity_snoc:
  "buildActivity (evs @ [ev]) = trackActivity ev (buildActivity evs)"
  by (simp add: buildActivity_def)

lemma firstSeen_keys:
  "distinct (map fst (userFirstSeen (buildActivity evs))) \<and>
   set (map fst (userFirstSeen (buildActivity evs))) = cohort evs"
proof (induction evs rule: rev_induct)
  case Nil
  then show ?case by (simp add: buildActivity_def cohort_def)
next
  case (snoc ev evs)
  then show ?case
    by (auto simp: buildActivity_snoc firstSeen_keys_step cohort_def)
qed

lemma user_events_snoc:
  "{e. (e = ev \<or> e \<in> set evs) \<and> userId e = u} =
     (if userId ev = u then insert ev {e \<in> set evs. userId e = u}
      else {e \<in> set evs. userId e = u})"
  by auto

lemma firstSeen_value:
  "map_of (userFirstSeen (buildActivity evs)) u =
     (if u \<in> cohort evs
      then Some (Min (event.timestamp ` {e \<in> set evs. userId e = u})) else None)"
proof (induction evs rule: rev_induct)
  case Nil
  then show ?case by (simp add: buildActivity_def cohort_def)
next
  case (snoc ev evs)
  show ?case
  proof (cases "userId ev = u")
    case False
    then have "u \<in> cohort (evs @ [ev]) \<longleftrightarrow> u \<in> cohort evs" by (auto simp: cohort_def)
    with False snoc show ?thesis
      by (simp add: buildActivity_snoc firstSeen_step user_events_snoc)
  next
    case True
    have in_c: "u \<in> cohort (evs @ [ev])" using True by (auto simp: cohort_def)
    show ?thesis
    proof (cases "u \<in> cohort evs")
      case False
      then have e: "{e \<in> set evs. userId e = u} = {}" by (auto simp: cohort_def)
      from False True snoc in_c show ?thesis
        by (simp add: buildActivity_snoc firstSeen_step user_events_snoc e)
    next
      case c: True
      then have ne: "event.timestamp ` {e \<in> set evs. userId e = u} \<noteq> {}"
        by (auto simp: cohort_def)
      have fin: "finite (event.timestamp ` {e \<in> set evs. userId e = u})" by simp
      from c True snoc in_c show ?thesis
        by (simp add: buildActivity_snoc firstSeen_step user_events_snoc Min_insert [OF fin ne])
    qed
  qed
qed

lemma set_set_add: "set (set_add v s) = insert v (set s)"
  by (auto simp: set_add_def)

lemma activeDays_value:
  "map_option set (map_of (userActiveDays (buildActivity evs)) u) =
     (if u \<in> cohort evs then Some (activityDays evs u) else None)"
proof (induction evs rule: rev_induct)
  case Nil
  then show ?case by (simp add: buildActivity_def cohort_def)
next
  case (snoc ev evs)
  show ?case
  proof (cases "userId ev = u")
    case False
    then have "u \<in> cohort (evs @ [ev]) \<longleftrightarrow> u \<in> cohort evs" by (auto simp: cohort_def)
    with False snoc show ?thesis
      by (simp add: buildActivity_snoc activeDays_step activityDays_def user_events_snoc)
  next
    case True
    have in_c: "u \<in> cohort (evs @ [ev])" using True by (auto simp: cohort_def)
    show ?thesis
    proof (cases "u \<in> cohort evs")
      case False
      then have "{e \<in> set evs. userId e = u} = {}" by (auto simp: cohort_def)
      with False True snoc in_c show ?thesis
        by (auto simp: buildActivity_snoc activeDays_step activityDays_def user_events_snoc
            set_set_add split: option.splits)
    next
      case c: True
      with True snoc in_c show ?thesis
        by (auto simp: buildActivity_snoc activeDays_step activityDays_def user_events_snoc
            set_set_add split: option.splits)
    qed
  qed
qed

lemma fold_count:
  "fold (\<lambda>p c. if P p then c + 1 else c) xs (c0::nat) = c0 + length (filter P xs)"
  by (induction xs arbitrary: c0) simp_all

lemma retainedCount_filter:
  "retainedCount a d = length (filter (isRetained (userActiveDays a) d) (userFirstSeen a))"
  by (simp add: retainedCount_def fold_count)

lemma firstSeen_entry:
  assumes "p \<in> set (userFirstSeen (buildActivity evs))"
  shows "fst p \<in> cohort evs"
    and "snd p = Min (event.timestamp ` {e \<in> set evs. userId e = fst p})"
proof -
  obtain u t where p: "p = (u, t)" by (cases p)
  have d: "distinct (map fst (userFirstSeen (buildActivity evs)))"
    using firstSeen_keys by blast
  from assms p d have m: "map_of (userFirstSeen (buildActivity evs)) u = Some t" by simp
  then show "fst p \<in> cohort evs"
    using firstSeen_value [of evs u] p by (simp split: if_splits)
  from m show "snd p = Min (event.timestamp ` {e \<in> set evs. userId e = fst p})"
    using firstSeen_value [of evs u] p by (simp split: if_splits)
qed

lemma isRetained_iff:
  assumes "p \<in> set (userFirstSeen (buildActivity evs))"
  shows "isRetained (userActiveDays (buildActivity evs)) d p \<longleftrightarrow> retainedAt evs d (fst p)"
proof -
  from firstSeen_entry [OF assms] have c: "fst p \<in> cohort evs"
    and t: "dayKey (snd p) = anchorDay evs (fst p)"
    by (simp_all add: anchorDay_def)
  from activeDays_value [of evs "fst p"] c obtain ds
    where ds: "map_of (userActiveDays (buildActivity evs)) (fst p) = Some ds"
      and s: "set ds = activityDays evs (fst p)"
    by (auto simp: map_option_case split: option.splits)
  show ?thesis
    by (simp add: isRetained_def Let_def ds s retainedAt_def dayKey_addDays t)
qed

lemma retainedCount_card:
  "retainedCount (buildActivity evs) d = card {u \<in> cohort evs. retainedAt evs d u}"
proof -
  let ?fs = "userFirstSeen (buildActivity evs)"
  let ?P = "isRetained (userActiveDays (buildActivity evs)) d"
  have dk: "distinct (map fst ?fs)" and ks: "set (map fst ?fs) = cohort evs"
    using firstSeen_keys by blast+
  then have dl: "distinct ?fs" by (simp add: distinct_map)
  have inj: "inj_on fst (set (filter ?P ?fs))"
    using dk by (auto simp: distinct_map intro: inj_on_subset)
  have img: "fst ` set (filter ?P ?fs) = {u \<in> cohort evs. retainedAt evs d u}"
  proof (rule set_eqI)
    fix u
    show "u \<in> fst ` set (filter ?P ?fs) \<longleftrightarrow> u \<in> {u \<in> cohort evs. retainedAt evs d u}"
    proof
      assume "u \<in> fst ` set (filter ?P ?fs)"
      then obtain p where p: "p \<in> set ?fs" "?P p" "u = fst p" by auto
      then show "u \<in> {u \<in> cohort evs. retainedAt evs d u}"
        using firstSeen_entry(1) [OF p(1)] isRetained_iff [OF p(1)] by simp
    next
      assume "u \<in> {u \<in> cohort evs. retainedAt evs d u}"
      then have u: "u \<in> cohort evs" "retainedAt evs d u" by simp_all
      with ks have "u \<in> fst ` set ?fs" by simp
      then obtain p where p: "p \<in> set ?fs" "fst p = u" by blast
      with u isRetained_iff [OF p(1)] have "?P p" by simp
      with p show "u \<in> fst ` set (filter ?P ?fs)" by force
    qed
  qed
  have "retainedCount (buildActivity evs) d = length (filter ?P ?fs)"
    by (rule retainedCount_filter)
  also have "\<dots> = card (set (filter ?P ?fs))"
    using distinct_card [OF distinct_filter [OF dl, of ?P]] by simp
  also have "\<dots> = card (fst ` set (filter ?P ?fs))"
    using inj by (simp add: card_image)
  finally show ?thesis by (simp only: img)
qed

lemma cohort_size: "length (userFirstSeen (buildActivity evs)) = card (cohort evs)"
proof -
  have "distinct (map fst (userFirstSeen (buildActivity evs)))"
    and "set (map fst (userFirstSeen (buildActivity evs))) = cohort evs"
    using firstSeen_keys by blast+
  then show ?thesis by (metis distinct_card length_map)
qed

lemma retained_le_cohort: "card {u \<in> cohort evs. retainedAt evs d u} \<le> card (cohort evs)"
  by (rule card_mono) (auto simp: cohort_def)

lemma retention_entry:
  "d \<in> set (retentionDays cfg) \<Longrightarrow>
     map_of (retention (computeRetentionAnalysis cfg events)) d =
       Some (retentionFor (buildActivity events) d)"
  by (simp add: computeRetentionAnalysis_def Let_def map_of_fold_update)

text \<open>
  Claim C7.  The total is the number of users in the cohort, which is the size
  of the first-seen map.  For every configured offset \<open>d\<close> the result has an
  entry whose retained count is the number of users of the cohort whose
  activity days contain the day \<open>d\<close> days after the day of their earliest event;
  the test that the code makes for a user of the first-seen map is true exactly
  for those users.  The rate is the retained count divided by the total, 0 for
  the empty cohort, and lies between 0 and 1.  A user whose only activity day
  is the first-seen day is retained at no offset greater than 0.
\<close>

theorem retention_cohort:
  "retentionResult.totalUsers (computeRetentionAnalysis cfg events) = card (cohort events) \<and>
   (\<forall>d \<in> set (retentionDays cfg).
      \<exists>r. map_of (retention (computeRetentionAnalysis cfg events)) d = Some r \<and>
          dayOffset r = d \<and>
          retained r = card {u \<in> cohort events. retainedAt events d u} \<and>
          total r = card (cohort events) \<and>
          rate r = (if card (cohort events) = 0 then 0
                    else of_nat (retained r) / of_nat (total r)) \<and>
          0 \<le> rate r \<and> rate r \<le> 1) \<and>
   (\<forall>p \<in> set (userFirstSeen (buildActivity events)). \<forall>d.
      isRetained (userActiveDays (buildActivity events)) d p \<longleftrightarrow> retainedAt events d (fst p)) \<and>
   (\<forall>u d. u \<in> cohort events \<longrightarrow> activityDays events u = {anchorDay events u} \<longrightarrow> 0 < d \<longrightarrow>
      \<not> retainedAt events d u) \<and>
   length (userFirstSeen (buildActivity events)) = card (cohort events)"
proof (intro conjI ballI allI impI)
  show "retentionResult.totalUsers (computeRetentionAnalysis cfg events) = card (cohort events)"
    by (simp add: computeRetentionAnalysis_def Let_def cohort_size)
next
  fix d assume d: "d \<in> set (retentionDays cfg)"
  let ?r = "retentionFor (buildActivity events) d"
  have le: "retained ?r \<le> total ?r"
    by (simp add: retentionFor_def Let_def retainedCount_card cohort_size retained_le_cohort)
  have "map_of (retention (computeRetentionAnalysis cfg events)) d = Some ?r"
    by (rule retention_entry [OF d])
  moreover have "dayOffset ?r = d" by (simp add: retentionFor_def Let_def)
  moreover have "retained ?r = card {u \<in> cohort events. retainedAt events d u}"
    by (simp add: retentionFor_def Let_def retainedCount_card)
  moreover have t: "total ?r = card (cohort events)"
    by (simp add: retentionFor_def Let_def cohort_size)
  moreover have r: "rate ?r = (if card (cohort events) = 0 then 0
                    else of_nat (retained ?r) / of_nat (total ?r))"
    by (simp add: retentionFor_def Let_def cohort_size)
  moreover have "0 \<le> rate ?r" by (simp add: r)
  moreover have "rate ?r \<le> 1" using le t by (simp add: r divide_le_eq_1)
  ultimately show "\<exists>r. map_of (retention (computeRetentionAnalysis cfg events)) d = Some r \<and>
          dayOffset r = d \<and>
          retained r = card {u \<in> cohort events. retainedAt events d u} \<and>
          total r = card (cohort events) \<and>
          rate r = (if card (cohort events) = 0 then 0
                    else of_nat (retained r) / of_nat (total r)) \<and>
          0 \<le> rate r \<and> rate r \<le> 1"
    by blast
next
  fix p d assume "p \<in> set (userFirstSeen (buildActivity events))"
  then show "isRetained (userActiveDays (buildActivity events)) d p \<longleftrightarrow>
      retainedAt events d (fst p)"
    by (rule isRetained_iff)
next
  fix u d
  assume "u \<in> cohort events" and "activityDays events u = {anchorDay events u}"
    and "0 < (d::int)"
  then show "\<not> retainedAt events d u" by (simp add: retainedAt_def)
next
  show "length (userFirstSeen (buildActivity events)) = card (cohort events)"
    by (rule cohort_size)
qed


theorem retention_cohort_witness:
  "retentionResult.totalUsers (computeRetentionAnalysis CONFIG
      [\<lparr> type = ''app_open'', timestamp = 86400005, sessionId = ''s2'', userId = ''u'' \<rparr>,
       \<lparr> type = ''app_open'', timestamp = 100, sessionId = ''s1'', userId = ''u'' \<rparr>,
       \<lparr> type = ''app_open'', timestamp = 172800009, sessionId = ''s3'', userId = ''v'' \<rparr>,
       \<lparr> type = ''view_capture'', timestamp = 259200000, sessionId = ''s4'', userId = ''u'' \<rparr>,
       \<lparr> type = ''app_open'', timestamp = 604800001, sessionId = ''s5'', userId = ''u'' \<rparr>]) = 2 \<and>
   map_option retained (map_of (retention (computeRetentionAnalysis CONFIG
      [\<lparr> type = ''app_open'', timestamp = 86400005, sessionId = ''s2'', userId = ''u'' \<rparr>,
       \<lparr> type = ''app_open'', timestamp = 100, sessionId = ''s1'', userId = ''u'' \<rparr>,
       \<lparr> type = ''app_open'', timestamp = 172800009, sessionId = ''s3'', userId = ''v'' \<rparr>,
       \<lparr> type = ''view_capture'', timestamp = 259200000, sessionId = ''s4'', userId = ''u'' \<rparr>,
       \<lparr> type = ''app_open'', timestamp = 604800001, sessionId = ''s5'', userId = ''u'' \<rparr>])) 7)
     = Some 1 \<and>
   map_option rate (map_of (retention (computeRetentionAnalysis CONFIG
      [\<lparr> type = ''app_open'', timestamp = 86400005, sessionId = ''s2'', userId = ''u'' \<rparr>,
       \<lparr> type = ''app_open'', timestamp = 100, sessionId = ''s1'', userId = ''u'' \<rparr>,
       \<lparr> type = ''app_open'', timestamp = 172800009, sessionId = ''s3'', userId = ''v'' \<rparr>,
       \<lparr> type = ''view_capture'', timestamp = 259200000, sessionId = ''s4'', userId = ''u'' \<rparr>,
       \<lparr> type = ''app_open'', timestamp = 604800001, sessionId = ''s5'', userId = ''u'' \<rparr>])) 7)
     = Some (1 / 2) \<and>
   map_option retained (map_of (retention (computeRetentionAnalysis CONFIG
      [\<lparr> type = ''app_open'', timestamp = 86400005, sessionId = ''s2'', userId = ''u'' \<rparr>,
       \<lparr> type = ''app_open'', timestamp = 100, sessionId = ''s1'', userId = ''u'' \<rparr>,
       \<lparr> type = ''app_open'', timestamp = 172800009, sessionId = ''s3'', userId = ''v'' \<rparr>,
       \<lparr> type = ''view_capture'', timestamp = 259200000, sessionId = ''s4'', userId = ''u'' \<rparr>,
       \<lparr> type = ''app_open'', timestamp = 604800001, sessionId = ''s5'', userId = ''u'' \<rparr>])) 14)
     = Some 0 \<and>
   \<not> retainedAt
      [\<lparr> type = ''app_open'', timestamp = 86400005, sessionId = ''s2'', userId = ''u'' \<rparr>,
       \<lparr> type = ''app_open'', timestamp = 100, sessionId = ''s1'', userId = ''u'' \<rparr>,
       \<lparr> type = ''app_open'', timestamp = 172800009, sessionId = ''s3'', userId = ''v'' \<rparr>,
       \<lparr> type = ''view_capture'', timestamp = 259200000, sessionId = ''s4'', userId = ''u'' \<rparr>,
       \<lparr> type = ''app_open'', timestamp = 604800001, sessionId = ''s5'', userId = ''u'' \<rparr>]
      1 ''v''"
proof -
  define E where "E =
      [\<lparr> type = ''app_open'', timestamp = 86400005, sessionId = ''s2'', userId = ''u'' \<rparr>,
       \<lparr> type = ''app_open'', timestamp = 100, sessionId = ''s1'', userId = ''u'' \<rparr>,
       \<lparr> type = ''app_open'', timestamp = 172800009, sessionId = ''s3'', userId = ''v'' \<rparr>,
       \<lparr> type = ''view_capture'', timestamp = 259200000, sessionId = ''s4'', userId = ''u'' \<rparr>,
       \<lparr> type = ''app_open'', timestamp = 604800001, sessionId = ''s5'', userId = ''u'' \<rparr>]"
  note t = retention_cohort [of CONFIG E]
  have c: "card (cohort E) = 2" unfolding E_def by code_simp
  have r7: "card {u \<in> cohort E. retainedAt E 7 u} = 1" unfolding E_def by code_simp
  have r14: "card {u \<in> cohort E. retainedAt E 14 u} = 0" unfolding E_def by code_simp
  have v: "''v'' \<in> cohort E" "activityDays E ''v'' = {anchorDay E ''v''}"
    unfolding E_def by code_simp+
  have d: "7 \<in> set (retentionDays CONFIG)" "14 \<in> set (retentionDays CONFIG)"
    by (simp_all add: CONFIG_def)
  have a: "retentionResult.totalUsers (computeRetentionAnalysis CONFIG E) = 2"
    using conjunct1 [OF t] c by simp
  from conjunct1 [OF conjunct2 [OF t]] d(1) obtain r where
    r: "map_of (retention (computeRetentionAnalysis CONFIG E)) 7 = Some r"
      "retained r = card {u \<in> cohort E. retainedAt E 7 u}" "total r = card (cohort E)"
      "rate r = (if card (cohort E) = 0 then 0 else of_nat (retained r) / of_nat (total r))"
    by blast
  from conjunct1 [OF conjunct2 [OF t]] d(2) obtain r' where
    r': "map_of (retention (computeRetentionAnalysis CONFIG E)) 14 = Some r'"
      "retained r' = card {u \<in> cohort E. retainedAt E 14 u}"
    by blast
  have b: "map_option retained (map_of (retention (computeRetentionAnalysis CONFIG E)) 7) = Some 1"
    "map_option rate (map_of (retention (computeRetentionAnalysis CONFIG E)) 7) = Some (1 / 2)"
    using r c r7 by simp_all
  have b': "map_option retained (map_of (retention (computeRetentionAnalysis CONFIG E)) 14) = Some 0"
    using r' r14 by simp
  have n: "\<not> retainedAt E 1 ''v''"
    using conjunct1 [OF conjunct2 [OF conjunct2 [OF conjunct2 [OF t]]]] v by simp
  show ?thesis using a b b' n unfolding E_def by simp
qed

end
